theory Spec2Isabelle
  imports Main "HOL-Library.Word"
begin

unbundle bit_operations_syntax

section \<open>The DAP4 metadata builder of netcdf-c (libdap4/d4meta.c)\<close>

text \<open>
  A shallow embedding of \<^verbatim>\<open>src/libdap4/d4meta.c\<close>. Nodes live in a heap
  (a list of node records, a pointer is an index, \<open>None\<close> is the null pointer); the
  functions that write build results take the heap and return the new one. Every function
  that dereferences a pointer returns a \<open>run\<close>: the value, or the fact that the C
  program dereferences a null (or dangling) pointer, or the fact that it does not return.
\<close>

subsection \<open>Constants of netcdf.h and of the DAP4 headers\<close>

text \<open>The codes of \<^verbatim>\<open>nc_type\<close> and the status codes, as netcdf.h numbers them.\<close>

abbreviation (input) NC_NAT :: int where "NC_NAT \<equiv> 0"
abbreviation (input) NC_BYTE :: int where "NC_BYTE \<equiv> 1"
abbreviation (input) NC_CHAR :: int where "NC_CHAR \<equiv> 2"
abbreviation (input) NC_SHORT :: int where "NC_SHORT \<equiv> 3"
abbreviation (input) NC_INT :: int where "NC_INT \<equiv> 4"
abbreviation (input) NC_FLOAT :: int where "NC_FLOAT \<equiv> 5"
abbreviation (input) NC_DOUBLE :: int where "NC_DOUBLE \<equiv> 6"
abbreviation (input) NC_UBYTE :: int where "NC_UBYTE \<equiv> 7"
abbreviation (input) NC_USHORT :: int where "NC_USHORT \<equiv> 8"
abbreviation (input) NC_UINT :: int where "NC_UINT \<equiv> 9"
abbreviation (input) NC_INT64 :: int where "NC_INT64 \<equiv> 10"
abbreviation (input) NC_UINT64 :: int where "NC_UINT64 \<equiv> 11"
abbreviation (input) NC_STRING :: int where "NC_STRING \<equiv> 12"
abbreviation (input) NC_MAX_ATOMIC_TYPE :: int where "NC_MAX_ATOMIC_TYPE \<equiv> 12"
abbreviation (input) NC_MAX_VAR_DIMS :: nat where "NC_MAX_VAR_DIMS \<equiv> 1024"
abbreviation (input) NC_VLEN :: int where "NC_VLEN \<equiv> 13"
abbreviation (input) NC_OPAQUE :: int where "NC_OPAQUE \<equiv> 14"
abbreviation (input) NC_ENUM :: int where "NC_ENUM \<equiv> 15"
abbreviation (input) NC_COMPOUND :: int where "NC_COMPOUND \<equiv> 16"
abbreviation (input) NC_SEQ :: int where "NC_SEQ \<equiv> NC_VLEN"
abbreviation (input) NC_STRUCT :: int where "NC_STRUCT \<equiv> NC_COMPOUND"

abbreviation (input) NC_NOERR :: int where "NC_NOERR \<equiv> 0"
abbreviation (input) NC_GLOBAL :: int where "NC_GLOBAL \<equiv> - 1"
abbreviation (input) NC_EINVAL :: int where "NC_EINVAL \<equiv> - 36"
abbreviation (input) NC_ENAMEINUSE :: int where "NC_ENAMEINUSE \<equiv> - 42"
abbreviation (input) NC_EBADTYPE :: int where "NC_EBADTYPE \<equiv> - 45"
abbreviation (input) NC_ERANGE :: int where "NC_ERANGE \<equiv> - 60"
abbreviation (input) NC_ENOMEM :: int where "NC_ENOMEM \<equiv> - 61"

text \<open>
  Modelled from the spec: the reserved names. The macros \<^verbatim>\<open>UCARTAGNC4\<close>,
  \<^verbatim>\<open>UCARTAGVLEN\<close> and \<^verbatim>\<open>NC4TAGMAPS\<close> are declared in a header that is
  not under src; the spec calls them the internal-tag prefix, the single-field marker and
  the map attribute.
\<close>

definition UCARTAGNC4 :: string where "UCARTAGNC4 = ''_edu.ucar.''"
definition UCARTAGVLEN :: string where "UCARTAGVLEN = ''_edu.ucar.isvlen''"
definition NC4TAGMAPS :: string where "NC4TAGMAPS = ''_edu.ucar.maps''"

text \<open>
  Modelled from the spec: the Atomic Type Table, \<^verbatim>\<open>NCD4_typesize\<close>, whose definition
  is not under src: the byte width of each primitive kind on a 64-bit machine (a text
  value is a character pointer), and 0 for every other type id.
\<close>

definition NCD4_typesize :: "int \<Rightarrow> nat" where
  "NCD4_typesize tid =
     (if tid = NC_BYTE \<or> tid = NC_UBYTE \<or> tid = NC_CHAR then 1
      else if tid = NC_SHORT \<or> tid = NC_USHORT then 2
      else if tid = NC_INT \<or> tid = NC_UINT then 4
      else if tid = NC_FLOAT then 4
      else if tid = NC_DOUBLE then 8
      else if tid = NC_INT64 \<or> tid = NC_UINT64 then 8
      else if tid = NC_STRING then 8
      else 0)"

text \<open>\<^verbatim>\<open>sizeof(nc_vlen_t)\<close>: a length and a pointer.\<close>

abbreviation (input) sizeof_nc_vlen_t :: nat where "sizeof_nc_vlen_t \<equiv> 16"

subsection \<open>Outcomes\<close>

text \<open>
  A call returns a value, or the program leaves defined behaviour: it reads through a
  null pointer, hands \<^verbatim>\<open>free\<close> a pointer that \<^verbatim>\<open>malloc\<close> did not return, or writes past
  the end of an array. \<open>NoReturn\<close> is a loop that never ends.
\<close>

datatype 'a run = Ret 'a | NullDeref | InvalidFree | Overrun | NoReturn

fun run_bind :: "'a run \<Rightarrow> ('a \<Rightarrow> 'b run) \<Rightarrow> 'b run" where
  "run_bind (Ret x) f = f x"
| "run_bind NullDeref f = NullDeref"
| "run_bind InvalidFree f = InvalidFree"
| "run_bind Overrun f = Overrun"
| "run_bind NoReturn f = NoReturn"

subsection \<open>The node graph\<close>

datatype NCD4sort = NCD4_NULL | NCD4_ATTR | NCD4_ATTRSET | NCD4_XML | NCD4_DIM
  | NCD4_GROUP | NCD4_TYPE | NCD4_VAR | NCD4_ECONST

text \<open>
  \<^verbatim>\<open>union ATOMICS\<close> is eight bytes that every view (\<^verbatim>\<open>i8[0]\<close>, \<^verbatim>\<open>u16[0]\<close>,
  \<^verbatim>\<open>f32[0]\<close>, \<^verbatim>\<open>f64[0]\<close>, \<^verbatim>\<open>s[0]\<close>, ...) reads and writes from offset 0. It is
  a 64-bit word here; on the little-endian machine modelled, the view of width \<open>n\<close> bits
  is the \<open>n\<close> low bits. A floating view holds the IEEE-754 bit pattern.
\<close>

type_synonym ATOMICS = "64 word"

record NCD4node =
  nsort :: NCD4sort
  subsort :: int
  name :: string
  container :: "nat option"
  basetype :: "nat option"
  groups :: "nat list"
  vars :: "nat list"
  dims :: "nat list"
  attributes :: "nat list"
  maps :: "nat list"
  group_isdataset :: bool
  dim_size :: nat
  en_econsts :: "nat list"
  en_ecvalue :: ATOMICS
  opaque_size :: "64 word"
  attr_values :: "string list"
  nc4_orig_name :: "string option"
  nc4_orig_group :: "nat option"
  meta_id :: int
  meta_cmpdid :: int
  meta_offset :: "64 word"

type_synonym heap = "NCD4node list"

definition deref :: "heap \<Rightarrow> nat option \<Rightarrow> NCD4node run" where
  "deref h p = (case p of None \<Rightarrow> NullDeref
                | Some i \<Rightarrow> if i < length h then Ret (h ! i) else NullDeref)"

definition ISGROUP :: "NCD4sort \<Rightarrow> bool" where "ISGROUP s = (s = NCD4_GROUP)"
definition ISTYPE :: "NCD4sort \<Rightarrow> bool" where "ISTYPE s = (s = NCD4_TYPE)"
definition ISVAR :: "NCD4sort \<Rightarrow> bool" where "ISVAR s = (s = NCD4_VAR)"

subsection \<open>The C library, as far as the builder sees it\<close>

text \<open>
  \<^verbatim>\<open>sscanf\<close> with one conversion either stores a value (\<open>Some\<close>) or converts
  nothing; \<^verbatim>\<open>%lf\<close> stores the bits of a binary64 value. \<open>malloc_ok n\<close> tells whether
  an allocation of \<open>n\<close> bytes succeeds, and \<open>uninit\<close> is what an uninitialised
  \<^verbatim>\<open>union ATOMICS\<close> on the stack holds. \<^verbatim>\<open>strdup\<close> and the list and byte-buffer
  helpers, whose results the source never tests, are taken to succeed.
  \<^verbatim>\<open>NCD4_makeFQN\<close> (the fully qualified name of a node, or a null pointer) and
  \<^verbatim>\<open>NCD4_toposort\<close> (the build order of the node list) are functions of the
  repository that are not under src: they are parameters too.
\<close>

record env =
  sscanf_lld :: "string \<Rightarrow> 64 word option"
  sscanf_llu :: "string \<Rightarrow> 64 word option"
  sscanf_lf :: "string \<Rightarrow> 64 word option"
  malloc_ok :: "nat \<Rightarrow> bool"
  uninit :: ATOMICS
  NCD4_makeFQN :: "heap \<Rightarrow> nat \<Rightarrow> string option"
  NCD4_toposort :: "heap \<Rightarrow> nat list \<Rightarrow> nat list"

subsection \<open>Narrowing casts\<close>

definition put_low :: "nat \<Rightarrow> ATOMICS \<Rightarrow> 64 word \<Rightarrow> ATOMICS" where
  \<comment> \<open>store the \<open>n\<close>-bit value \<open>v\<close> through a view of width \<open>n\<close>: the other bytes stay\<close>
  "put_low n conv v = push_bit n (drop_bit n conv) OR take_bit n v"

definition round_shift :: "nat \<Rightarrow> nat \<Rightarrow> nat" where
  \<comment> \<open>\<open>x / 2^k\<close> rounded to the nearest integer, ties to even\<close>
  "round_shift x k =
     (let q = x div 2 ^ k; r = x mod 2 ^ k; half = 2 ^ (k - 1)
      in if r > half \<or> (r = half \<and> odd q) then q + 1 else q)"

definition f64_to_f32 :: "64 word \<Rightarrow> 32 word" where
  \<comment> \<open>the cast \<^verbatim>\<open>(float)f64\<close> on bit patterns, rounding to nearest, ties to even\<close>
  "f64_to_f32 d =
     (let sign = (if bit d 63 then (0x80000000 :: 32 word) else 0);
          e = unat (drop_bit 52 d AND 0x7FF);
          m = unat (d AND 0xFFFFFFFFFFFFF)
      in if e = 2047 then
           (if m = 0 then sign OR 0x7F800000
            else sign OR 0x7FC00000 OR of_nat (m div 2 ^ 29))
         else if e = 0 then sign
         else if 897 \<le> e then
           (let bits = (e - 897) * 2 ^ 23 + round_shift (2 ^ 52 + m) 29
            in if 255 * 2 ^ 23 \<le> bits then sign OR 0x7F800000 else sign OR of_nat bits)
         else sign OR of_nat (round_shift (2 ^ 52 + m) (29 + (897 - e))))"

definition downConvert :: "ATOMICS \<Rightarrow> NCD4node \<Rightarrow> int \<times> ATOMICS" where
  "downConvert converter type =
     (let u64 = converter; i64 = converter; f64 = converter; s = converter;
          k = subsort type
      in (NC_NOERR,
          if k = NC_BYTE then put_low 8 converter (ucast (ucast i64 :: 8 word))
          else if k = NC_UBYTE then put_low 8 converter (ucast (ucast u64 :: 8 word))
          else if k = NC_SHORT then put_low 16 converter (ucast (ucast i64 :: 16 word))
          else if k = NC_USHORT then put_low 16 converter (ucast (ucast u64 :: 16 word))
          else if k = NC_INT then put_low 32 converter (ucast (ucast i64 :: 32 word))
          else if k = NC_UINT then put_low 32 converter (ucast (ucast u64 :: 32 word))
          else if k = NC_INT64 then i64
          else if k = NC_UINT64 then u64
          else if k = NC_FLOAT then put_low 32 converter (ucast (f64_to_f32 f64))
          else if k = NC_DOUBLE then f64
          else if k = NC_STRING then s
          else converter))"

subsection \<open>Parsing one value\<close>

text \<open>
  A character pointer is a handle into the table of duplicated strings: the handle of the
  \<open>k\<close>-th string (from 0) is \<open>k + 1\<close>, never the null pointer.
\<close>

definition strdup :: "string list \<Rightarrow> string \<Rightarrow> 64 word \<times> string list" where
  "strdup tab s = (of_nat (length tab + 1), tab @ [s])"

definition convertString ::
  "env \<Rightarrow> string list \<Rightarrow> ATOMICS \<Rightarrow> NCD4node \<Rightarrow> string \<Rightarrow> int \<times> ATOMICS \<times> string list" where
  "convertString E tab converter type s =
     (let k = subsort type in
      if k = NC_BYTE \<or> k = NC_SHORT \<or> k = NC_INT \<or> k = NC_INT64 then
        (case sscanf_lld E s of None \<Rightarrow> (NC_ERANGE, converter, tab)
         | Some v \<Rightarrow> (fst (downConvert v type), snd (downConvert v type), tab))
      else if k = NC_UBYTE \<or> k = NC_USHORT \<or> k = NC_UINT \<or> k = NC_UINT64 then
        (case sscanf_llu E s of None \<Rightarrow> (NC_ERANGE, converter, tab)
         | Some v \<Rightarrow> (fst (downConvert v type), snd (downConvert v type), tab))
      else if k = NC_FLOAT \<or> k = NC_DOUBLE then
        (case sscanf_lf E s of None \<Rightarrow> (NC_ERANGE, converter, tab)
         | Some v \<Rightarrow> (fst (downConvert v type), snd (downConvert v type), tab))
      else if k = NC_STRING then
        (let (p, tab') = strdup tab s
         in (fst (downConvert p type), snd (downConvert p type), tab'))
      else (fst (downConvert converter type), snd (downConvert converter type), tab))"

definition le_bytes :: "64 word \<Rightarrow> 8 word list" where
  \<comment> \<open>the eight bytes of the union, lowest address first\<close>
  "le_bytes w =
     [ucast w, ucast (drop_bit 8 w), ucast (drop_bit 16 w), ucast (drop_bit 24 w),
      ucast (drop_bit 32 w), ucast (drop_bit 40 w), ucast (drop_bit 48 w),
      ucast (drop_bit 56 w)]"

definition copyAtomic :: "ATOMICS \<Rightarrow> int \<Rightarrow> nat \<Rightarrow> 8 word list" where
  \<comment> \<open>the bytes the call leaves in \<open>dst .. dst + len\<close>; a type without a case copies
      nothing and the bytes stay as \<^verbatim>\<open>malloc\<close> left them (0 here)\<close>
  "copyAtomic converter type len =
     (if type = NC_CHAR \<or> type = NC_BYTE \<or> type = NC_UBYTE
         \<or> type = NC_SHORT \<or> type = NC_USHORT
         \<or> type = NC_INT \<or> type = NC_UINT
         \<or> type = NC_INT64 \<or> type = NC_UINT64
         \<or> type = NC_FLOAT \<or> type = NC_DOUBLE \<or> type = NC_STRING
      then take len (le_bytes converter)
      else replicate len 0)"

subsection \<open>Enumeration constants\<close>

fun find_econst_name :: "heap \<Rightarrow> nat list \<Rightarrow> string \<Rightarrow> nat option run" where
  "find_econst_name h [] nameorval = Ret None"
| "find_econst_name h (p # ps) nameorval =
     run_bind (deref h (Some p)) (\<lambda>ec.
       if name ec = nameorval then Ret (Some p) else find_econst_name h ps nameorval)"

text \<open>
  The views of \<^verbatim>\<open>union ATOMICS\<close> are arrays (the code reads \<^verbatim>\<open>converter->u64[0]\<close>), so
  the test \<^verbatim>\<open>ec->en.ecvalue.u64 == number.u64\<close> of the second loop of \<^verbatim>\<open>decodeEconst\<close>
  compares two addresses: that of the union inside the node of the constant, and that of
  the local variable \<^verbatim>\<open>number\<close>.
\<close>

datatype ATOMICS_ref = Ecvalue_of nat | Local_number

fun find_econst_value :: "heap \<Rightarrow> nat list \<Rightarrow> ATOMICS_ref \<Rightarrow> nat option run" where
  "find_econst_value h [] number_u64 = Ret None"
| "find_econst_value h (p # ps) number_u64 =
     run_bind (deref h (Some p)) (\<lambda>ec.
       if Ecvalue_of p = number_u64 then Ret (Some p)
       else find_econst_value h ps number_u64)"

definition decodeEconst ::
  "env \<Rightarrow> heap \<Rightarrow> string list \<Rightarrow> NCD4node \<Rightarrow> string \<Rightarrow> ATOMICS
     \<Rightarrow> (int \<times> ATOMICS \<times> string list) run" where
  "decodeEconst E h tab enumtype nameorval converter =
     run_bind (find_econst_name h (en_econsts enumtype) nameorval) (\<lambda>match.
       case match of
         Some p \<Rightarrow> Ret (NC_NOERR, en_ecvalue (h ! p), tab)
       | None \<Rightarrow>
           run_bind (deref h (basetype enumtype)) (\<lambda>bt.
             let (ret, number, tab') = convertString E tab (uninit E) bt nameorval in
             if ret \<noteq> NC_NOERR then Ret (ret, converter, tab')
             else run_bind (find_econst_value h (en_econsts enumtype) Local_number) (\<lambda>match.
               case match of
                 None \<Rightarrow> Ret (NC_EINVAL, converter, tab')
               | Some p \<Rightarrow> Ret (NC_NOERR, en_ecvalue (h ! p), tab'))))"

subsection \<open>Encoding the values of an attribute\<close>

fun compile_loop ::
  "env \<Rightarrow> heap \<Rightarrow> bool \<Rightarrow> NCD4node \<Rightarrow> NCD4node \<Rightarrow> string list
     \<Rightarrow> int \<Rightarrow> ATOMICS \<Rightarrow> 8 word list \<Rightarrow> string list
     \<Rightarrow> (int \<times> (8 word list \<times> string list) option) run" where
  "compile_loop E h isenum btype truebase [] ret converter memory tab =
     Ret (ret, Some (memory, tab))"
| "compile_loop E h isenum btype truebase (s # values) ret converter memory tab =
     (if isenum then
        run_bind (decodeEconst E h tab btype s converter) (\<lambda>(ret1, conv1, tab1).
          if ret1 \<noteq> NC_NOERR then Ret (ret1, None)
          else
            let (ret2, conv2) = downConvert conv1 truebase
            in compile_loop E h isenum btype truebase values ret2 conv2
                 (memory @ copyAtomic conv2 (meta_id truebase) (NCD4_typesize (meta_id truebase)))
                 tab1)
      else
        (let (ret1, conv1, tab1) = convertString E tab converter btype s in
         if ret1 \<noteq> NC_NOERR then Ret (NC_EBADTYPE, None)
         else
           let (ret2, conv2) = downConvert conv1 truebase
           in compile_loop E h isenum btype truebase values ret2 conv2
                (memory @ copyAtomic conv2 (meta_id truebase) (NCD4_typesize (meta_id truebase)))
                tab1))"

definition compileAttrValues ::
  "env \<Rightarrow> heap \<Rightarrow> nat option \<Rightarrow> string list
     \<Rightarrow> (int \<times> (8 word list \<times> string list) option) run" where
  "compileAttrValues E h basetype_p values =
     run_bind (deref h basetype_p) (\<lambda>btype.
       let count = length values;
           isenum = (subsort btype = NC_ENUM)
       in run_bind (if isenum then deref h (basetype btype) else Ret btype) (\<lambda>truebase.
         if \<not> ISTYPE (nsort truebase) \<or> meta_id truebase > NC_MAX_ATOMIC_TYPE
         then Ret (NC_EBADTYPE, None)
         else
           let size = NCD4_typesize (meta_id truebase) in
           if \<not> malloc_ok E (count * size) then Ret (NC_ENOMEM, None)
           else compile_loop E h isenum btype truebase values NC_NOERR (uninit E) [] []))"

subsection \<open>Names of anonymous composite types\<close>

abbreviation (input) backslash :: char where "backslash \<equiv> CHR 0x5C"

fun escape_chars :: "string \<Rightarrow> string" where
  \<comment> \<open>the loop of \<^verbatim>\<open>backslashEscape\<close> over the characters of \<open>s\<close>\<close>
  "escape_chars [] = []"
| "escape_chars (c # p) =
     (if c = backslash \<or> c = CHR ''/'' \<or> c = CHR ''.'' \<or> c = CHR ''@''
      then backslash # backslash # escape_chars p
      else c # escape_chars p)"

definition backslashEscape :: "env \<Rightarrow> string \<Rightarrow> string option" where
  "backslashEscape E s =
     (let len = length s in
      if \<not> malloc_ok E (1 + 2 * len) then None else Some (escape_chars s))"

text \<open>
  The walk along the container pointers. A walk that has visited more nodes than the heap
  holds has visited one twice and never ends: the fuel \<open>Suc (length h)\<close> is exact.
\<close>

fun collect_path :: "nat \<Rightarrow> heap \<Rightarrow> nat option \<Rightarrow> nat list \<Rightarrow> nat list run" where
  "collect_path 0 h x path = NoReturn"
| "collect_path (Suc k) h x path =
     run_bind (deref h x) (\<lambda>n.
       if ISGROUP (nsort n) then Ret path
       else collect_path k h (container n) (the x # path))"

fun fqn_loop :: "env \<Rightarrow> heap \<Rightarrow> nat list \<Rightarrow> nat \<Rightarrow> string \<Rightarrow> string option run" where
  "fqn_loop E h [] i fqn = Ret (Some fqn)"
| "fqn_loop E h (e # path) i fqn =
     run_bind (deref h (Some e)) (\<lambda>elem.
       case backslashEscape E (name elem) of
         None \<Rightarrow> Ret None
       | Some escaped \<Rightarrow>
           fqn_loop E h path (Suc i) ((if i > 0 then fqn @ ''.'' else fqn) @ escaped))"

definition getFieldFQN :: "env \<Rightarrow> heap \<Rightarrow> nat option \<Rightarrow> string \<Rightarrow> string option run" where
  "getFieldFQN E h field tail =
     run_bind (collect_path (Suc (length h)) h field []) (\<lambda>path.
       run_bind (fqn_loop E h path 0 []) (\<lambda>r.
         Ret (map_option (\<lambda>fqn. fqn @ tail) r)))"

fun groupFor_fuel :: "nat \<Rightarrow> heap \<Rightarrow> nat option \<Rightarrow> nat run" where
  "groupFor_fuel 0 h node = NoReturn"
| "groupFor_fuel (Suc k) h node =
     run_bind (deref h node) (\<lambda>n.
       if nsort n \<noteq> NCD4_GROUP then groupFor_fuel k h (container n)
       else Ret (the node))"

definition groupFor :: "heap \<Rightarrow> nat option \<Rightarrow> nat run" where
  "groupFor h node = groupFor_fuel (Suc (length h)) h node"

subsection \<open>Sizes and offsets\<close>

fun computeTypeSize_fuel :: "nat \<Rightarrow> heap \<Rightarrow> nat option \<Rightarrow> 64 word run" where
  "computeTypeSize_fuel 0 h type = NoReturn"
| "computeTypeSize_fuel (Suc k) h type =
     run_bind (deref h type) (\<lambda>t.
       if nsort t = NCD4_TYPE then
         (if subsort t = NC_OPAQUE then
            Ret (if opaque_size t = 0 then of_nat sizeof_nc_vlen_t else opaque_size t)
          else if subsort t = NC_ENUM then computeTypeSize_fuel k h (basetype t)
          else if subsort t = NC_SEQ then Ret (of_nat sizeof_nc_vlen_t)
          else if subsort t = NC_STRUCT then Ret (meta_offset t)
          else Ret (of_nat (NCD4_typesize (meta_id t))))
       else Ret 0)"

definition computeTypeSize :: "heap \<Rightarrow> nat option \<Rightarrow> 64 word run" where
  "computeTypeSize h type = computeTypeSize_fuel (Suc (length h)) h type"

definition set_offset :: "heap \<Rightarrow> nat \<Rightarrow> 64 word \<Rightarrow> heap" where
  "set_offset h i v = h[i := (h ! i)\<lparr>meta_offset := v\<rparr>]"

definition set_id :: "heap \<Rightarrow> nat \<Rightarrow> int \<Rightarrow> heap" where
  "set_id h i v = h[i := (h ! i)\<lparr>meta_id := v\<rparr>]"

definition set_cmpdid :: "heap \<Rightarrow> nat \<Rightarrow> int \<Rightarrow> heap" where
  "set_cmpdid h i v = h[i := (h ! i)\<lparr>meta_cmpdid := v\<rparr>]"

text \<open>
  \<^verbatim>\<open>computeOffsets\<close> calls itself on the type of each structure-typed field; the
  fuel bounds the depth of that recursion, and a depth beyond the number of nodes means
  a type that contains itself.
\<close>

fun computeOffsets_fuel :: "nat \<Rightarrow> heap \<Rightarrow> nat option \<Rightarrow> heap run"
  and offsets_loop :: "nat \<Rightarrow> heap \<Rightarrow> nat list \<Rightarrow> 64 word \<Rightarrow> (heap \<times> 64 word) run" where
  "computeOffsets_fuel 0 h cmpd = NoReturn"
| "computeOffsets_fuel (Suc k) h cmpd =
     run_bind (deref h cmpd) (\<lambda>c.
       run_bind (offsets_loop k h (vars c) 0) (\<lambda>(h', offset).
         Ret (set_offset h' (the cmpd) offset)))"
| "offsets_loop k h [] offset = Ret (h, offset)"
| "offsets_loop k h (f # fs) offset =
     run_bind (deref h (Some f)) (\<lambda>field.
       run_bind
         (if subsort field = NC_STRUCT then
            run_bind (computeOffsets_fuel k h (basetype field)) (\<lambda>h1.
              run_bind (computeTypeSize h1 (basetype field)) (\<lambda>size. Ret (h1, size)))
          else if subsort field = NC_SEQ then Ret (h, of_nat sizeof_nc_vlen_t)
          else run_bind (computeTypeSize h (basetype field)) (\<lambda>size. Ret (h, size)))
         (\<lambda>(h1, size). offsets_loop k (set_offset h1 f offset) fs (offset + size)))"

definition computeOffsets :: "heap \<Rightarrow> nat option \<Rightarrow> heap run" where
  "computeOffsets h cmpd = computeOffsets_fuel (Suc (length h)) h cmpd"

subsection \<open>The destination store\<close>

text \<open>
  Modelled from the spec: the destination store (the netCDF library, not under src), with
  the calls the spec lists for it. The store keeps every call it receives, the types
  defined so far by group handle and name, and the next fresh id. Defining a type under a
  name in use in that group, or under a null name, is refused. \<open>faults\<close> lets a store
  refuse its \<open>k\<close>-th call (from 0) with any status, for whatever reason of its own.
\<close>

datatype att_data = Packed "8 word list" "string list" | Texts "string option list"

datatype call =
    Def_grp int string
  | Def_dim int string nat
  | Def_enum int int string
  | Insert_enum int int string ATOMICS
  | Def_opaque int "64 word" string
  | Def_vlen int "string option" int
  | Def_compound int "64 word" "string option"
  | Insert_compound int int string "64 word" int
  | Insert_array_compound int int string "64 word" int nat "int list"
  | Def_var int string int nat "int list"
  | Put_att int int string int nat att_data
  | Inq_typeid int "string option"

record store =
  calls :: "call list"
  typenames :: "((int \<times> string) \<times> int) list"
  next_id :: int
  faults :: "nat \<Rightarrow> int"

definition fresh_id :: "store \<Rightarrow> (int \<times> int) \<times> store" where
  "fresh_id D = ((NC_NOERR, next_id D), D\<lparr>next_id := next_id D + 1\<rparr>)"

definition define_type :: "store \<Rightarrow> int \<Rightarrow> string option \<Rightarrow> (int \<times> int) \<times> store" where
  "define_type D g nm =
     (case nm of
        None \<Rightarrow> ((NC_EINVAL, 0), D)
      | Some n \<Rightarrow>
          (case map_of (typenames D) (g, n) of
             Some t \<Rightarrow> ((NC_ENAMEINUSE, 0), D)
           | None \<Rightarrow> ((NC_NOERR, next_id D),
                      D\<lparr>typenames := ((g, n), next_id D) # typenames D,
                        next_id := next_id D + 1\<rparr>)))"

definition lookup_type :: "store \<Rightarrow> int \<Rightarrow> string option \<Rightarrow> (int \<times> int) \<times> store" where
  "lookup_type D g nm =
     (case nm of
        None \<Rightarrow> ((NC_EINVAL, 0), D)
      | Some n \<Rightarrow>
          (case map_of (typenames D) (g, n) of
             Some t \<Rightarrow> ((NC_NOERR, t), D)
           | None \<Rightarrow> ((NC_EBADTYPE, 0), D)))"

fun answer :: "store \<Rightarrow> call \<Rightarrow> (int \<times> int) \<times> store" where
  "answer D (Def_grp g n) = fresh_id D"
| "answer D (Def_dim g n sz) = fresh_id D"
| "answer D (Def_enum g b n) = define_type D g (Some n)"
| "answer D (Insert_enum g t n v) = ((NC_NOERR, 0), D)"
| "answer D (Def_opaque g sz n) = define_type D g (Some n)"
| "answer D (Def_vlen g n b) = define_type D g n"
| "answer D (Def_compound g sz n) = define_type D g n"
| "answer D (Insert_compound g t n off ft) = ((NC_NOERR, 0), D)"
| "answer D (Insert_array_compound g t n off ft rank sizes) = ((NC_NOERR, 0), D)"
| "answer D (Def_var g n t rank dimids) = fresh_id D"
| "answer D (Put_att g v n t count data) = ((NC_NOERR, 0), D)"
| "answer D (Inq_typeid g n) = lookup_type D g n"

definition store_call :: "store \<Rightarrow> call \<Rightarrow> (int \<times> int) \<times> store" where
  \<comment> \<open>the status, the id handed back, and the store afterwards\<close>
  "store_call D c =
     (let k = length (calls D); D1 = D\<lparr>calls := calls D @ [c]\<rparr>
      in if faults D k \<noteq> NC_NOERR then ((faults D k, 0), D1) else answer D1 c)"

subsection \<open>The builder\<close>

record NCD4meta =
  root :: "nat option"
  allnodes :: "nat list"
  ncid :: int

record bstate =
  nodes :: heap
  dest :: store

definition commit :: "bstate \<Rightarrow> nat \<Rightarrow> (int \<times> int) \<times> store \<Rightarrow> int \<times> bstate" where
  \<comment> \<open>a call with the out-parameter \<^verbatim>\<open>&node->meta.id\<close>: written when the call succeeds\<close>
  "commit S i r =
     (case r of ((ret, v), D) \<Rightarrow>
        (ret, if ret = NC_NOERR then \<lparr>nodes = set_id (nodes S) i v, dest = D\<rparr>
              else S\<lparr>dest := D\<rparr>))"

definition pass :: "bstate \<Rightarrow> (int \<times> int) \<times> store \<Rightarrow> int \<times> bstate" where
  "pass S r = (case r of ((ret, v), D) \<Rightarrow> (ret, S\<lparr>dest := D\<rparr>))"

definition ISTOPLEVEL :: "heap \<Rightarrow> NCD4node \<Rightarrow> bool run" where
  \<comment> \<open>Modelled from the spec: a top-level variable; the macro is not under src\<close>
  "ISTOPLEVEL h x =
     (case container x of None \<Rightarrow> Ret True
      | Some c \<Rightarrow> run_bind (deref h (Some c)) (\<lambda>cn. Ret (nsort cn = NCD4_GROUP)))"

fun NCD4_findAttr_loop :: "heap \<Rightarrow> nat list \<Rightarrow> string \<Rightarrow> nat option run" where
  "NCD4_findAttr_loop h [] attrname = Ret None"
| "NCD4_findAttr_loop h (a # as) attrname =
     run_bind (deref h (Some a)) (\<lambda>attr.
       if name attr \<noteq> attrname then NCD4_findAttr_loop h as attrname else Ret (Some a))"

definition NCD4_findAttr :: "heap \<Rightarrow> NCD4node \<Rightarrow> string \<Rightarrow> nat option run" where
  \<comment> \<open>Modelled from the spec: the single-field marker is an attribute of the node found
      by name; the function is not under src\<close>
  "NCD4_findAttr h container_n attrname =
     NCD4_findAttr_loop h (attributes container_n) attrname"

fun getDimrefs :: "heap \<Rightarrow> nat list \<Rightarrow> int list run" where
  "getDimrefs h [] = Ret []"
| "getDimrefs h (d # ds) =
     run_bind (deref h (Some d)) (\<lambda>dim.
       run_bind (getDimrefs h ds) (\<lambda>dimids. Ret (meta_id dim # dimids)))"

text \<open>
  \<^verbatim>\<open>getDimsizes\<close> stores one \<^verbatim>\<open>size_t\<close> for each dimension through its parameter
  \<^verbatim>\<open>size_t* dimsizes\<close>; \<open>room\<close> is the number of \<^verbatim>\<open>size_t\<close> that fit the array of the
  caller, \<open>i\<close> the loop counter. Its one caller, \<^verbatim>\<open>buildCompound\<close>, hands it
  \<^verbatim>\<open>int dimsizes[NC_MAX_VAR_DIMS]\<close> and then passes this array of \<^verbatim>\<open>int\<close> to the store. On
  the machine modelled (\<^verbatim>\<open>size_t\<close> of 8 bytes, \<^verbatim>\<open>int\<close> of 4, little-endian) the array has
  room for \<^verbatim>\<open>NC_MAX_VAR_DIMS / 2\<close> extents, and each extent written fills two \<^verbatim>\<open>int\<close>,
  the low half first.
\<close>

fun getDimsizes :: "heap \<Rightarrow> nat list \<Rightarrow> nat \<Rightarrow> nat \<Rightarrow> 64 word list run" where
  "getDimsizes h [] room i = Ret []"
| "getDimsizes h (d # ds) room i =
     run_bind (deref h (Some d)) (\<lambda>dim.
       if i < room then
         run_bind (getDimsizes h ds room (Suc i)) (\<lambda>dimsizes.
           Ret (of_nat (dim_size dim) # dimsizes))
       else Overrun)"

definition as_ints :: "64 word list \<Rightarrow> int list" where
  "as_ints ws =
     concat (map (\<lambda>w. [sint (ucast w :: 32 word), sint (ucast (drop_bit 32 w) :: 32 word)]) ws)"

fun buildGroups_fuel :: "nat \<Rightarrow> NCD4meta \<Rightarrow> bstate \<Rightarrow> nat option \<Rightarrow> (int \<times> bstate) run"
  and buildGroups_loop ::
    "nat \<Rightarrow> NCD4meta \<Rightarrow> bstate \<Rightarrow> nat option \<Rightarrow> nat list \<Rightarrow> (int \<times> bstate) run" where
  "buildGroups_fuel 0 B S parent = NoReturn"
| "buildGroups_fuel (Suc k) B S parent =
     run_bind (deref (nodes S) parent) (\<lambda>p. buildGroups_loop k B S parent (groups p))"
| "buildGroups_loop k B S parent [] = Ret (NC_NOERR, S)"
| "buildGroups_loop k B S parent (gi # gs) =
     run_bind (deref (nodes S) (Some gi)) (\<lambda>g.
       run_bind
         (if group_isdataset g then
            Ret (NC_NOERR, S\<lparr>nodes := set_id (nodes S) gi (ncid B)\<rparr>)
          else
            run_bind (deref (nodes S) parent) (\<lambda>p.
              Ret (commit S gi (store_call (dest S) (Def_grp (meta_id p) (name g))))))
         (\<lambda>(ret, S1).
            if ret \<noteq> NC_NOERR then Ret (ret, S1)
            else run_bind (buildGroups_fuel k B S1 (Some gi)) (\<lambda>(ret2, S2).
              if ret2 \<noteq> NC_NOERR then Ret (ret2, S2)
              else buildGroups_loop k B S2 parent gs)))"

definition buildGroups :: "NCD4meta \<Rightarrow> bstate \<Rightarrow> nat option \<Rightarrow> (int \<times> bstate) run" where
  "buildGroups B S parent = buildGroups_fuel (Suc (length (nodes S))) B S parent"

definition buildDimension :: "NCD4meta \<Rightarrow> bstate \<Rightarrow> nat option \<Rightarrow> (int \<times> bstate) run" where
  "buildDimension B S dim =
     run_bind (groupFor (nodes S) dim) (\<lambda>gi.
       run_bind (deref (nodes S) dim) (\<lambda>d.
         Ret (commit S (the dim)
                (store_call (dest S)
                   (Def_dim (meta_id (nodes S ! gi)) (name d) (dim_size d))))))"

fun insert_enum_loop :: "bstate \<Rightarrow> nat \<Rightarrow> nat \<Rightarrow> nat list \<Rightarrow> (int \<times> bstate) run" where
  "insert_enum_loop S gi en [] = Ret (NC_NOERR, S)"
| "insert_enum_loop S gi en (e # es) =
     run_bind (deref (nodes S) (Some e)) (\<lambda>ec.
       case pass S (store_call (dest S)
                      (Insert_enum (meta_id (nodes S ! gi)) (meta_id (nodes S ! en))
                         (name ec) (en_ecvalue ec))) of
         (ret, S1) \<Rightarrow>
           if ret \<noteq> NC_NOERR then Ret (ret, S1) else insert_enum_loop S1 gi en es)"

definition buildEnumeration :: "NCD4meta \<Rightarrow> bstate \<Rightarrow> nat option \<Rightarrow> (int \<times> bstate) run" where
  "buildEnumeration B S en =
     run_bind (groupFor (nodes S) en) (\<lambda>gi.
       run_bind (deref (nodes S) en) (\<lambda>e.
         run_bind (deref (nodes S) (basetype e)) (\<lambda>bt.
           case commit S (the en)
                  (store_call (dest S)
                     (Def_enum (meta_id (nodes S ! gi)) (meta_id bt) (name e))) of
             (ret, S1) \<Rightarrow>
               if ret \<noteq> NC_NOERR then Ret (ret, S1)
               else insert_enum_loop S1 gi (the en) (en_econsts e))))"

definition buildOpaque :: "NCD4meta \<Rightarrow> bstate \<Rightarrow> nat option \<Rightarrow> (int \<times> bstate) run" where
  "buildOpaque B S op =
     run_bind (groupFor (nodes S) op) (\<lambda>gi.
       run_bind (deref (nodes S) op) (\<lambda>opn.
         if 0 < opaque_size opn then
           (let (nm, grp) =
                  (case nc4_orig_name opn of
                     Some orig \<Rightarrow> (orig, nc4_orig_group opn)
                   | None \<Rightarrow> (name opn, Some gi))
            in run_bind (deref (nodes S) grp) (\<lambda>g.
                 Ret (commit S (the op)
                        (store_call (dest S) (Def_opaque (meta_id g) (opaque_size opn) nm)))))
         else
           run_bind (deref (nodes S) (root B)) (\<lambda>r.
             Ret (commit S (the op)
                    (store_call (dest S) (Def_vlen (meta_id r) (Some ''_bytestring'') NC_UBYTE))))))"

fun compound_fields_loop :: "bstate \<Rightarrow> nat \<Rightarrow> nat \<Rightarrow> nat list \<Rightarrow> (int \<times> bstate) run" where
  "compound_fields_loop S gi ci [] = Ret (NC_NOERR, S)"
| "compound_fields_loop S gi ci (f # fs) =
     run_bind (deref (nodes S) (Some f)) (\<lambda>field.
       let rank = length (dims field) in
       run_bind (deref (nodes S) (basetype field)) (\<lambda>bt.
         run_bind
           (if rank = 0 then
              Ret (pass S (store_call (dest S)
                     (Insert_compound (meta_id (nodes S ! gi)) (meta_id (nodes S ! ci))
                        (name field) (meta_offset field) (meta_id bt))))
            else
              run_bind (getDimsizes (nodes S) (dims field) (NC_MAX_VAR_DIMS div 2) 0)
                (\<lambda>dimsizes.
                  Ret (pass S (store_call (dest S)
                         (Insert_array_compound (meta_id (nodes S ! gi)) (meta_id (nodes S ! ci))
                            (name field) (meta_offset field) (meta_id bt) rank
                            (take rank (as_ints dimsizes)))))))
           (\<lambda>(ret, S1).
              if ret \<noteq> NC_NOERR then Ret (ret, S1) else compound_fields_loop S1 gi ci fs)))"

definition buildCompound ::
  "NCD4meta \<Rightarrow> bstate \<Rightarrow> nat option \<Rightarrow> nat option \<Rightarrow> string option \<Rightarrow> (int \<times> bstate) run" where
  "buildCompound B S cmpdtype grp nm =
     run_bind (computeOffsets (nodes S) cmpdtype) (\<lambda>h1.
       run_bind (deref h1 grp) (\<lambda>g.
         run_bind (deref h1 cmpdtype) (\<lambda>c.
           case commit (S\<lparr>nodes := h1\<rparr>) (the cmpdtype)
                  (store_call (dest S) (Def_compound (meta_id g) (meta_offset c) nm)) of
             (ret, S1) \<Rightarrow>
               if ret \<noteq> NC_NOERR then Ret (ret, S1)
               else compound_fields_loop S1 (the grp) (the cmpdtype) (vars c))))"

definition buildStructureType ::
  "env \<Rightarrow> NCD4meta \<Rightarrow> bstate \<Rightarrow> nat option \<Rightarrow> (int \<times> bstate) run" where
  "buildStructureType E B S structtype =
     run_bind (groupFor (nodes S) structtype) (\<lambda>gi.
       run_bind (deref (nodes S) structtype) (\<lambda>st.
         run_bind
           (case nc4_orig_name st of
              Some orig \<Rightarrow> Ret (Some orig, nc4_orig_group st)
            | None \<Rightarrow> run_bind (getFieldFQN E (nodes S) structtype ''_t'') (\<lambda>nm.
                        Ret (nm, Some gi)))
           (\<lambda>(nm, grp).
              run_bind (deref (nodes S) grp) (\<lambda>g.
                case store_call (dest S) (Inq_typeid (meta_id g) nm) of
                  ((r, tid), D) \<Rightarrow>
                    if r = NC_NOERR then
                      Ret (NC_NOERR, \<lparr>nodes = set_id (nodes S) (the structtype) tid, dest = D\<rparr>)
                    else buildCompound B (S\<lparr>dest := D\<rparr>) structtype grp nm))))"

text \<open>
  \<^verbatim>\<open>buildSequenceType\<close> in two parts: steps 1 and 2 (the names, the group and the probe
  for an existing type), and steps 4 and 5 with the definition of the variable-length
  type, which run when the probe finds nothing. \<^verbatim>\<open>field1\<close> is initialised to the null
  pointer and is not assigned anywhere in the function.
\<close>

definition buildSequenceType_define ::
  "NCD4meta \<Rightarrow> bstate \<Rightarrow> nat option \<Rightarrow> nat option \<Rightarrow> string option \<Rightarrow> string option
     \<Rightarrow> (int \<times> bstate) run" where
  "buildSequenceType_define B S seqtype grp vlentypename cmpdtypename =
     run_bind (deref (nodes S) seqtype) (\<lambda>sq.
       let field1 = None in
       run_bind (NCD4_findAttr (nodes S) sq UCARTAGVLEN) (\<lambda>ucar.
         let usevlen = (ucar \<noteq> None \<and> length (vars sq) = 1) in
         run_bind
           (if usevlen then
              run_bind (deref (nodes S) field1) (\<lambda>f1.
                run_bind (deref (nodes S) (basetype f1)) (\<lambda>bt.
                  Ret (NC_NOERR, meta_id bt, S)))
            else
              run_bind (buildCompound B S seqtype grp cmpdtypename)
                (\<lambda>(ret, S1).
                   if ret \<noteq> NC_NOERR then Ret (ret, NC_NAT, S1)
                   else
                     let cid = meta_id (nodes S1 ! the seqtype) in
                     Ret (NC_NOERR, cid,
                          S1\<lparr>nodes := set_cmpdid (nodes S1) (the seqtype) cid\<rparr>)))
           (\<lambda>(ret, tid, S2).
              if ret \<noteq> NC_NOERR then Ret (ret, S2)
              else
                run_bind (deref (nodes S2) grp) (\<lambda>g2.
                  Ret (commit S2 (the seqtype)
                         (store_call (dest S2)
                            (Def_vlen (meta_id g2) vlentypename tid)))))))"

definition buildSequenceType ::
  "env \<Rightarrow> NCD4meta \<Rightarrow> bstate \<Rightarrow> nat option \<Rightarrow> (int \<times> bstate) run" where
  "buildSequenceType E B S seqtype =
     run_bind (groupFor (nodes S) seqtype) (\<lambda>gi.
       run_bind (deref (nodes S) seqtype) (\<lambda>sq.
         run_bind
           (case nc4_orig_name sq of
              Some orig \<Rightarrow> Ret (Some orig, None, nc4_orig_group sq)
            | None \<Rightarrow>
                run_bind (getFieldFQN E (nodes S) seqtype ''_t'') (\<lambda>vnm.
                  run_bind (getFieldFQN E (nodes S) seqtype ''_cmpd_t'') (\<lambda>cnm.
                    Ret (vnm, cnm, Some gi))))
           (\<lambda>(vlentypename, cmpdtypename, grp).
              run_bind (deref (nodes S) grp) (\<lambda>g.
                case store_call (dest S) (Inq_typeid (meta_id g) vlentypename) of
                  ((r, tid0), D) \<Rightarrow>
                    if r = NC_NOERR then
                      Ret (NC_NOERR, \<lparr>nodes = set_id (nodes S) (the seqtype) tid0, dest = D\<rparr>)
                    else
                      buildSequenceType_define B (S\<lparr>dest := D\<rparr>) seqtype grp
                        vlentypename cmpdtypename))))"

fun buildAttributes_loop ::
  "env \<Rightarrow> bstate \<Rightarrow> nat option \<Rightarrow> nat list \<Rightarrow> (int \<times> bstate) run" where
  "buildAttributes_loop E S varorgroup [] = Ret (NC_NOERR, S)"
| "buildAttributes_loop E S varorgroup (a # as) =
     run_bind (deref (nodes S) (Some a)) (\<lambda>attr.
       let count = length (attr_values attr) in
       if take (length UCARTAGNC4) (name attr) = UCARTAGNC4
       then buildAttributes_loop E S varorgroup as
       else
         run_bind (deref (nodes S) varorgroup) (\<lambda>v.
           let varid = (if ISGROUP (nsort v) then NC_GLOBAL else meta_id v) in
           run_bind (compileAttrValues E (nodes S) (basetype attr) (attr_values attr))
             (\<lambda>(ret, memory).
                if ret \<noteq> NC_NOERR then Ret (NC_ERANGE, S)
                else
                  run_bind (groupFor (nodes S) varorgroup) (\<lambda>gi.
                    run_bind (deref (nodes S) (basetype attr)) (\<lambda>bt.
                      case pass S (store_call (dest S)
                             (Put_att (meta_id (nodes S ! gi)) varid (name attr) (meta_id bt) count
                                (case memory of Some (bytes, tab) \<Rightarrow> Packed bytes tab
                                 | None \<Rightarrow> Packed [] []))) of
                        (ret1, S1) \<Rightarrow>
                          if ret1 \<noteq> NC_NOERR then Ret (ret1, S1)
                          else buildAttributes_loop E S1 varorgroup as)))))"

definition buildAttributes :: "env \<Rightarrow> NCD4meta \<Rightarrow> bstate \<Rightarrow> nat option \<Rightarrow> (int \<times> bstate) run" where
  "buildAttributes E B S varorgroup =
     run_bind (deref (nodes S) varorgroup) (\<lambda>v.
       buildAttributes_loop E S varorgroup (attributes v))"

text \<open>
  \<^verbatim>\<open>freeStringMemory\<close> frees the strings while it advances \<^verbatim>\<open>mem\<close> itself, and then
  frees \<^verbatim>\<open>mem\<close>: \<open>free_strings n off\<close> is the offset of \<^verbatim>\<open>mem\<close> from the start of the block
  after \<open>n\<close> more rounds of the loop, and only offset 0 is a pointer that \<^verbatim>\<open>malloc\<close>
  returned.
\<close>

fun free_strings :: "nat \<Rightarrow> nat \<Rightarrow> nat" where
  "free_strings 0 off = off"
| "free_strings (Suc n) off = free_strings n (Suc off)"

definition freeStringMemory :: "string option list option \<Rightarrow> nat \<Rightarrow> unit run" where
  "freeStringMemory mem count =
     (case mem of
        None \<Rightarrow> Ret ()
      | Some strings \<Rightarrow> if free_strings count 0 = 0 then Ret () else InvalidFree)"

text \<open>
  In \<^verbatim>\<open>buildMaps\<close> the outer and the inner loop share the counter \<open>i\<close>: the inner
  loop (the \<open>map\<close> below) leaves it at \<open>count\<close>, and the outer loop increments it
  before its next test.
\<close>

function buildMaps_loop ::
  "env \<Rightarrow> bstate \<Rightarrow> nat option \<Rightarrow> NCD4node \<Rightarrow> nat \<Rightarrow> nat \<Rightarrow> int \<Rightarrow> (int \<times> bstate) run" where
  "buildMaps_loop E S var v count i ret =
     (if i < count then
        (if \<not> malloc_ok E (count * 8) then Ret (NC_ENOMEM, S)
         else
           let memory = map (NCD4_makeFQN E (nodes S)) (maps v);
               i1 = count
           in run_bind (groupFor (nodes S) var) (\<lambda>gi.
                case pass S (store_call (dest S)
                       (Put_att (meta_id (nodes S ! gi)) (meta_id v) NC4TAGMAPS NC_STRING count
                          (Texts memory))) of
                  (ret1, S1) \<Rightarrow>
                    run_bind (freeStringMemory (Some memory) count) (\<lambda>freed.
                      if ret1 \<noteq> NC_NOERR then Ret (ret1, S1)
                      else buildMaps_loop E S1 var v count (Suc i1) ret1)))
      else Ret (ret, S))"
  by pat_completeness auto
termination
  by (relation "measure (\<lambda>(E, S, var, v, count, i, ret). Suc count - i)") auto

declare buildMaps_loop.simps [simp del]

definition buildMaps :: "env \<Rightarrow> NCD4meta \<Rightarrow> bstate \<Rightarrow> nat option \<Rightarrow> (int \<times> bstate) run" where
  "buildMaps E B S var =
     run_bind (deref (nodes S) var) (\<lambda>v.
       buildMaps_loop E S var v (length (maps v)) 0 NC_NOERR)"

definition buildMetaData :: "env \<Rightarrow> NCD4meta \<Rightarrow> bstate \<Rightarrow> nat option \<Rightarrow> (int \<times> bstate) run" where
  "buildMetaData E B S var =
     run_bind (buildAttributes E B S var) (\<lambda>(ret, S1).
       if ret \<noteq> NC_NOERR then Ret (ret, S1) else buildMaps E B S1 var)"

definition buildAtomicVar :: "env \<Rightarrow> NCD4meta \<Rightarrow> bstate \<Rightarrow> nat option \<Rightarrow> (int \<times> bstate) run" where
  "buildAtomicVar E B S var =
     run_bind (groupFor (nodes S) var) (\<lambda>gi.
       run_bind (deref (nodes S) var) (\<lambda>v.
         run_bind (getDimrefs (nodes S) (dims v)) (\<lambda>dimids.
           let rank = length (dims v) in
           run_bind (deref (nodes S) (basetype v)) (\<lambda>bt.
             case commit S (the var)
                    (store_call (dest S)
                       (Def_var (meta_id (nodes S ! gi)) (name v) (meta_id bt) rank dimids)) of
               (ret, S1) \<Rightarrow>
                 if ret \<noteq> NC_NOERR then Ret (ret, S1) else buildMetaData E B S1 var))))"

definition buildStructure :: "env \<Rightarrow> NCD4meta \<Rightarrow> bstate \<Rightarrow> nat option \<Rightarrow> (int \<times> bstate) run" where
  "buildStructure E B S structvar =
     run_bind (deref (nodes S) structvar) (\<lambda>v.
       let rank = length (dims v) in
       run_bind (getDimrefs (nodes S) (dims v)) (\<lambda>dimids.
         run_bind (groupFor (nodes S) structvar) (\<lambda>gi.
           run_bind (deref (nodes S) (basetype v)) (\<lambda>bt.
             case commit S (the structvar)
                    (store_call (dest S)
                       (Def_var (meta_id (nodes S ! gi)) (name v) (meta_id bt) rank dimids)) of
               (ret, S1) \<Rightarrow>
                 if ret \<noteq> NC_NOERR then Ret (ret, S1) else buildMetaData E B S1 structvar))))"

definition buildSequence :: "env \<Rightarrow> NCD4meta \<Rightarrow> bstate \<Rightarrow> nat option \<Rightarrow> (int \<times> bstate) run" where
  "buildSequence E B S seq =
     run_bind (deref (nodes S) seq) (\<lambda>v.
       let rank = length (dims v) in
       run_bind (getDimrefs (nodes S) (dims v)) (\<lambda>dimids.
         run_bind (groupFor (nodes S) seq) (\<lambda>gi.
           run_bind (deref (nodes S) (basetype v)) (\<lambda>bt.
             case commit S (the seq)
                    (store_call (dest S)
                       (Def_var (meta_id (nodes S ! gi)) (name v) (meta_id bt) rank dimids)) of
               (ret, S1) \<Rightarrow>
                 if ret \<noteq> NC_NOERR then Ret (ret, S1) else buildMetaData E B S1 seq))))"

definition buildVariable :: "env \<Rightarrow> NCD4meta \<Rightarrow> bstate \<Rightarrow> nat option \<Rightarrow> (int \<times> bstate) run" where
  "buildVariable E B S var =
     run_bind (deref (nodes S) var) (\<lambda>v.
       if subsort v = NC_STRUCT then buildStructure E B S var
       else if subsort v = NC_SEQ then buildSequence E B S var
       else buildAtomicVar E B S var)"

subsection \<open>The build pass\<close>

definition build_node :: "env \<Rightarrow> NCD4meta \<Rightarrow> bstate \<Rightarrow> nat \<Rightarrow> (int \<times> bstate) run" where
  \<comment> \<open>the body of the first loop of \<^verbatim>\<open>build\<close>: the switch on the sort of \<open>x\<close>\<close>
  "build_node E B S xi =
     run_bind (deref (nodes S) (Some xi)) (\<lambda>x.
       if nsort x = NCD4_DIM then buildDimension B S (Some xi)
       else if nsort x = NCD4_TYPE then
         (if subsort x = NC_ENUM then buildEnumeration B S (Some xi)
          else if subsort x = NC_OPAQUE then buildOpaque B S (Some xi)
          else if subsort x = NC_STRUCT then buildStructureType E B S (Some xi)
          else if subsort x = NC_SEQ then buildSequenceType E B S (Some xi)
          else Ret (NC_NOERR, S))
       else Ret (NC_NOERR, S))"

fun build_types :: "env \<Rightarrow> NCD4meta \<Rightarrow> bstate \<Rightarrow> nat list \<Rightarrow> (int \<times> bstate) run" where
  "build_types E B S [] = Ret (NC_NOERR, S)"
| "build_types E B S (xi # xs) =
     run_bind (build_node E B S xi) (\<lambda>(ret, S1).
       if ret \<noteq> NC_NOERR then Ret (ret, S1) else build_types E B S1 xs)"

fun build_vars :: "env \<Rightarrow> NCD4meta \<Rightarrow> bstate \<Rightarrow> nat list \<Rightarrow> bstate run" where
  \<comment> \<open>the last loop of \<^verbatim>\<open>build\<close>: the value of \<^verbatim>\<open>buildVariable\<close> is not used\<close>
  "build_vars E B S [] = Ret S"
| "build_vars E B S (xi # xs) =
     run_bind (deref (nodes S) (Some xi)) (\<lambda>x.
       run_bind (if ISVAR (nsort x) then ISTOPLEVEL (nodes S) x else Ret False) (\<lambda>top.
         if top then
           run_bind (buildVariable E B S (Some xi)) (\<lambda>(ret, S1). build_vars E B S1 xs)
         else build_vars E B S xs))"

definition build :: "env \<Rightarrow> NCD4meta \<Rightarrow> bstate \<Rightarrow> nat option \<Rightarrow> (int \<times> bstate) run" where
  "build E B S rootp =
     run_bind (buildGroups B S rootp) (\<lambda>(ret, S1).
       if ret \<noteq> NC_NOERR then Ret (ret, S1)
       else
         run_bind (build_types E B S1 (allnodes B)) (\<lambda>(ret, S2).
           if ret \<noteq> NC_NOERR then Ret (ret, S2)
           else run_bind (build_vars E B S2 (allnodes B)) (\<lambda>S3. Ret (ret, S3))))"

fun fix_atomic_types :: "heap \<Rightarrow> nat list \<Rightarrow> heap run" where
  "fix_atomic_types h [] = Ret h"
| "fix_atomic_types h (ni # ns) =
     run_bind (deref h (Some ni)) (\<lambda>n.
       if nsort n \<noteq> NCD4_TYPE then fix_atomic_types h ns
       else if subsort n > NC_MAX_ATOMIC_TYPE then fix_atomic_types h ns
       else fix_atomic_types (set_id h ni (subsort n)) ns)"

definition NCD4_metabuild :: "env \<Rightarrow> NCD4meta \<Rightarrow> bstate \<Rightarrow> int \<Rightarrow> (int \<times> bstate) run" where
  "NCD4_metabuild E metadata S ncid0 =
     (let B1 = metadata\<lparr>ncid := ncid0\<rparr> in
      run_bind (deref (nodes S) (root B1)) (\<lambda>r.
        run_bind (fix_atomic_types (set_id (nodes S) (the (root B1)) ncid0) (allnodes B1)) (\<lambda>h1.
          let B2 = B1\<lparr>allnodes := NCD4_toposort E h1 (allnodes B1)\<rparr>
          in build E B2 (S\<lparr>nodes := h1\<rparr>) (root B2))))"

section \<open>The layout of a structure type\<close>

text \<open>
  The layout the specification describes, to be compared with \<^const>\<open>computeOffsets\<close>.
  A type is plain when \<^const>\<open>computeTypeSize\<close> reads no offset to size it: an opaque,
  a sequence or an atomic type, or an enumeration of a plain type.
\<close>

fun plain_type :: "nat \<Rightarrow> heap \<Rightarrow> nat option \<Rightarrow> bool" where
  "plain_type 0 h t = False"
| "plain_type (Suc k) h t =
     (case t of
        None \<Rightarrow> False
      | Some i \<Rightarrow>
          i < length h \<and>
          (if nsort (h ! i) = NCD4_TYPE then
             (if subsort (h ! i) = NC_OPAQUE then True
              else if subsort (h ! i) = NC_ENUM then plain_type k h (basetype (h ! i))
              else if subsort (h ! i) = NC_SEQ then True
              else subsort (h ! i) \<noteq> NC_STRUCT)
           else True))"

text \<open>
  A structure type is well formed to depth \<open>k\<close> when its node and its fields are in the
  node table, a structure field names a structure type that is well formed to depth
  \<open>k - 1\<close>, and any other field that is not a sequence names a plain type.
\<close>

fun wf_cmpd :: "nat \<Rightarrow> heap \<Rightarrow> nat \<Rightarrow> bool"
  and wf_fields :: "nat \<Rightarrow> heap \<Rightarrow> nat list \<Rightarrow> bool" where
  "wf_cmpd 0 h c = False"
| "wf_cmpd (Suc k) h c = (c < length h \<and> wf_fields k h (vars (h ! c)))"
| "wf_fields k h [] = True"
| "wf_fields k h (f # fs) =
     (f < length h
      \<and> (if subsort (h ! f) = NC_STRUCT then
           (case basetype (h ! f) of
              None \<Rightarrow> False
            | Some t \<Rightarrow> wf_cmpd k h t \<and> nsort (h ! t) = NCD4_TYPE \<and> subsort (h ! t) = NC_STRUCT)
         else if subsort (h ! f) = NC_SEQ then True
         else plain_type (Suc (length h)) h (basetype (h ! f)))
      \<and> wf_fields k h fs)"

text \<open>
  The declared width of a field: the total size of the structure type for a structure
  field, the size of a variable-length handle for a sequence field whatever its element
  type, and the size of the base type otherwise. The total size of a structure type is
  the sum of the widths of its fields. All sizes are 64-bit unsigned, as \<^verbatim>\<open>d4size_t\<close>.
\<close>

fun total_size :: "nat \<Rightarrow> heap \<Rightarrow> nat \<Rightarrow> 64 word"
  and width :: "nat \<Rightarrow> heap \<Rightarrow> nat \<Rightarrow> 64 word" where
  "total_size 0 h c = 0"
| "total_size (Suc k) h c = sum_list (map (width k h) (vars (h ! c)))"
| "width k h f =
     (if subsort (h ! f) = NC_STRUCT then
        (case basetype (h ! f) of Some t \<Rightarrow> total_size k h t | None \<Rightarrow> 0)
      else if subsort (h ! f) = NC_SEQ then of_nat sizeof_nc_vlen_t
      else (case computeTypeSize h (basetype (h ! f)) of
              Ret w \<Rightarrow> w | _ \<Rightarrow> 0))"

declare width.simps [simp del]

text \<open>
  The expected offsets, in the order the fields are visited: a field of a structure is
  at the sum of the widths before it, the nodes of a nested structure type are laid out
  just before the field that has the type, and a structure type carries its total size.
\<close>

fun layout :: "nat \<Rightarrow> heap \<Rightarrow> nat \<Rightarrow> (nat \<times> 64 word) list"
  and layout_fields :: "nat \<Rightarrow> heap \<Rightarrow> nat list \<Rightarrow> 64 word \<Rightarrow> (nat \<times> 64 word) list"
  and layout_nested :: "nat \<Rightarrow> heap \<Rightarrow> nat \<Rightarrow> (nat \<times> 64 word) list" where
  "layout 0 h c = []"
| "layout (Suc k) h c =
     layout_fields k h (vars (h ! c)) 0 @ [(c, sum_list (map (width k h) (vars (h ! c))))]"
| "layout_fields k h [] off = []"
| "layout_fields k h (f # fs) off =
     layout_nested k h f @ [(f, off)] @ layout_fields k h fs (off + width k h f)"
| "layout_nested k h f =
     (if subsort (h ! f) = NC_STRUCT then
        (case basetype (h ! f) of Some t \<Rightarrow> layout k h t | None \<Rightarrow> [])
      else [])"

declare layout_nested.simps [simp del]

text \<open>
  A node table agrees with a layout when every listed node holds the listed offset;
  two node tables are the same outside a layout when they agree on every node the
  layout does not list.
\<close>

definition laid_out :: "heap \<Rightarrow> (nat \<times> 64 word) list \<Rightarrow> bool" where
  "laid_out h L = (\<forall>(n, v) \<in> set L. meta_offset (h ! n) = v)"

definition same_outside :: "(nat \<times> 64 word) list \<Rightarrow> heap \<Rightarrow> heap \<Rightarrow> bool" where
  "same_outside L h h' = (\<forall>i. i \<notin> fst ` set L \<longrightarrow> h' ! i = h ! i)"

section \<open>Sample inputs\<close>

text \<open>A node as \<^verbatim>\<open>calloc\<close> leaves it.\<close>

definition blank :: NCD4node where
  "blank = \<lparr>nsort = NCD4_NULL, subsort = 0, name = [], container = None, basetype = None,
     groups = [], vars = [], dims = [], attributes = [], maps = [], group_isdataset = False,
     dim_size = 0, en_econsts = [], en_ecvalue = 0, opaque_size = 0, attr_values = [],
     nc4_orig_name = None, nc4_orig_group = None, meta_id = 0, meta_cmpdid = 0,
     meta_offset = 0\<rparr>"

text \<open>
  A sample C library: \<^verbatim>\<open>%lld\<close> and \<^verbatim>\<open>%llu\<close> skip white space, take a sign and
  decimal digits and saturate as glibc does; \<^verbatim>\<open>%lf\<close> is tabulated on the texts used
  below, with the binary64 patterns of 1.0, 0.5 and -2.0.
\<close>

definition isspace :: "char \<Rightarrow> bool" where
  "isspace c = (c \<in> set [CHR '' '', CHR 0x09, CHR 0x0A, CHR 0x0B, CHR 0x0C, CHR 0x0D])"

definition digit_value :: "char \<Rightarrow> nat option" where
  "digit_value c = map_of (zip ''0123456789'' [0, 1, 2, 3, 4, 5, 6, 7, 8, 9]) c"

fun scan_digits :: "string \<Rightarrow> nat \<Rightarrow> nat" where
  "scan_digits [] acc = acc"
| "scan_digits (c # cs) acc =
     (case digit_value c of None \<Rightarrow> acc | Some d \<Rightarrow> scan_digits cs (10 * acc + d))"

definition scan_decimal :: "string \<Rightarrow> int option" where
  "scan_decimal s =
     (let s1 = dropWhile isspace s;
          neg = (s1 \<noteq> [] \<and> hd s1 = CHR ''-'');
          s2 = (if s1 \<noteq> [] \<and> (hd s1 = CHR ''-'' \<or> hd s1 = CHR ''+'') then tl s1 else s1)
      in case s2 of
           [] \<Rightarrow> None
         | c # cs \<Rightarrow>
             if digit_value c = None then None
             else Some ((if neg then - 1 else 1) * int (scan_digits s2 0)))"

definition sample_lld :: "string \<Rightarrow> 64 word option" where
  "sample_lld s =
     map_option (\<lambda>v. word_of_int (max (- (2 ^ 63)) (min (2 ^ 63 - 1) v))) (scan_decimal s)"

definition sample_llu :: "string \<Rightarrow> 64 word option" where
  "sample_llu s =
     map_option (\<lambda>v. if 2 ^ 64 \<le> \<bar>v\<bar> then - 1 else word_of_int v) (scan_decimal s)"

definition sample_lf :: "string \<Rightarrow> 64 word option" where
  "sample_lf s =
     map_of [(''1.0'', 0x3FF0000000000000), (''0.5'', 0x3FE0000000000000),
             (''-2.0'', 0xC000000000000000)] s"

definition sample_fqn :: "heap \<Rightarrow> nat \<Rightarrow> string option" where
  "sample_fqn h i = Some (''/'' @ name (h ! i))"

definition sample_order :: "heap \<Rightarrow> nat list \<Rightarrow> nat list" where
  "sample_order h ns = ns"

definition sample_env :: env where
  "sample_env = \<lparr>sscanf_lld = sample_lld, sscanf_llu = sample_llu, sscanf_lf = sample_lf,
     malloc_ok = (\<lambda>n. True), uninit = 0,
     NCD4_makeFQN = sample_fqn, NCD4_toposort = sample_order\<rparr>"

definition empty_store :: store where
  "empty_store = \<lparr>calls = [], typenames = [], next_id = 100, faults = (\<lambda>k. NC_NOERR)\<rparr>"

definition run_status :: "(int \<times> bstate) run \<Rightarrow> int option" where
  "run_status r = (case r of Ret (ret, S) \<Rightarrow> Some ret | _ \<Rightarrow> None)"

definition run_calls :: "(int \<times> bstate) run \<Rightarrow> call list" where
  "run_calls r = (case r of Ret (ret, S) \<Rightarrow> calls (dest S) | _ \<Rightarrow> [])"

definition run_nodes :: "(int \<times> bstate) run \<Rightarrow> heap" where
  "run_nodes r = (case r of Ret (ret, S) \<Rightarrow> nodes S | _ \<Rightarrow> [])"

text \<open>A 32-bit float type alone, for an attribute with the one value 1.0.\<close>

definition float_heap :: heap where
  "float_heap = [blank\<lparr>nsort := NCD4_TYPE, subsort := NC_FLOAT, name := ''Float32'',
                      meta_id := NC_FLOAT\<rparr>]"

text \<open>
  A sequence type \<open>s\<close> in the root group, with one field \<open>v\<close> of type Int32 and the
  marker attribute.
\<close>

definition seq_heap :: heap where
  "seq_heap =
    [blank\<lparr>nsort := NCD4_GROUP, name := ''root'', group_isdataset := True, meta_id := 7\<rparr>,
     blank\<lparr>nsort := NCD4_TYPE, subsort := NC_INT, name := ''Int32'', container := Some 0,
           meta_id := NC_INT\<rparr>,
     blank\<lparr>nsort := NCD4_TYPE, subsort := NC_SEQ, name := ''s'', container := Some 0,
           vars := [3], attributes := [4]\<rparr>,
     blank\<lparr>nsort := NCD4_VAR, subsort := NC_INT, name := ''v'', container := Some 2,
           basetype := Some 1\<rparr>,
     blank\<lparr>nsort := NCD4_ATTR, name := UCARTAGVLEN, container := Some 2, basetype := Some 1,
           attr_values := [''1'']\<rparr>]"

definition sample_meta :: NCD4meta where
  "sample_meta = \<lparr>root = Some 0, allnodes = [0, 1, 2, 3, 4], ncid = 7\<rparr>"

text \<open>
  Two top-level variables of type Float64 in the root group, and a store that refuses its
  first call.
\<close>

definition vars_heap :: heap where
  "vars_heap =
    [blank\<lparr>nsort := NCD4_GROUP, name := ''root'', group_isdataset := True\<rparr>,
     blank\<lparr>nsort := NCD4_TYPE, subsort := NC_DOUBLE, name := ''Float64'', container := Some 0\<rparr>,
     blank\<lparr>nsort := NCD4_VAR, subsort := NC_DOUBLE, name := ''temp'', container := Some 0,
           basetype := Some 1\<rparr>,
     blank\<lparr>nsort := NCD4_VAR, subsort := NC_DOUBLE, name := ''pressure'', container := Some 0,
           basetype := Some 1\<rparr>]"

definition vars_meta :: NCD4meta where
  "vars_meta = \<lparr>root = Some 0, allnodes = [0, 1, 2, 3], ncid = 0\<rparr>"

definition refusing_store :: store where
  "refusing_store = empty_store\<lparr>faults := (\<lambda>k. if k = 0 then NC_EINVAL else NC_NOERR)\<rparr>"

text \<open>Two opaque types of size 0 in the root group.\<close>

definition opaque_heap :: heap where
  "opaque_heap =
    [blank\<lparr>nsort := NCD4_GROUP, name := ''root'', group_isdataset := True, meta_id := 7\<rparr>,
     blank\<lparr>nsort := NCD4_TYPE, subsort := NC_OPAQUE, name := ''a'', container := Some 0\<rparr>,
     blank\<lparr>nsort := NCD4_TYPE, subsort := NC_OPAQUE, name := ''b'', container := Some 0\<rparr>]"

definition opaque_meta :: NCD4meta where
  "opaque_meta = \<lparr>root = Some 0, allnodes = [0, 1, 2], ncid = 7\<rparr>"

text \<open>The parse a kind of integer gets: signed kinds through \<^verbatim>\<open>%lld\<close>, unsigned through \<^verbatim>\<open>%llu\<close>.\<close>

definition integer_kinds :: "int set" where
  "integer_kinds =
     {NC_BYTE, NC_SHORT, NC_INT, NC_INT64, NC_UBYTE, NC_USHORT, NC_UINT, NC_UINT64}"

definition scan_family :: "env \<Rightarrow> int \<Rightarrow> string \<Rightarrow> 64 word option" where
  "scan_family E k s =
     (if k = NC_BYTE \<or> k = NC_SHORT \<or> k = NC_INT \<or> k = NC_INT64 then sscanf_lld E s
      else sscanf_llu E s)"

text \<open>An enumeration over Int32 with the constants RED = 0 and GREEN = 1, and a variable of it.\<close>

definition enum_heap :: heap where
  "enum_heap =
    [blank\<lparr>nsort := NCD4_GROUP, name := ''root'', group_isdataset := True, meta_id := 7\<rparr>,
     blank\<lparr>nsort := NCD4_TYPE, subsort := NC_INT, name := ''Int32'', container := Some 0,
           meta_id := NC_INT\<rparr>,
     blank\<lparr>nsort := NCD4_TYPE, subsort := NC_ENUM, name := ''colors'', container := Some 0,
           basetype := Some 1, en_econsts := [3, 4]\<rparr>,
     blank\<lparr>nsort := NCD4_ECONST, name := ''RED'', container := Some 2, en_ecvalue := 0\<rparr>,
     blank\<lparr>nsort := NCD4_ECONST, name := ''GREEN'', container := Some 2, en_ecvalue := 1\<rparr>,
     blank\<lparr>nsort := NCD4_VAR, subsort := NC_ENUM, name := ''c'', container := Some 0,
           basetype := Some 2\<rparr>]"

text \<open>A variable \<open>v\<close> (already defined, with id 11) with map references to A and B.\<close>

definition maps_heap :: heap where
  "maps_heap =
    [blank\<lparr>nsort := NCD4_GROUP, name := ''root'', group_isdataset := True, meta_id := 7\<rparr>,
     blank\<lparr>nsort := NCD4_TYPE, subsort := NC_DOUBLE, name := ''Float64'', container := Some 0,
           meta_id := NC_DOUBLE\<rparr>,
     blank\<lparr>nsort := NCD4_VAR, subsort := NC_DOUBLE, name := ''A'', container := Some 0,
           basetype := Some 1, meta_id := 9\<rparr>,
     blank\<lparr>nsort := NCD4_VAR, subsort := NC_DOUBLE, name := ''B'', container := Some 0,
           basetype := Some 1, meta_id := 10\<rparr>,
     blank\<lparr>nsort := NCD4_VAR, subsort := NC_DOUBLE, name := ''v'', container := Some 0,
           basetype := Some 1, maps := [2, 3], meta_id := 11\<rparr>]"

text \<open>
  For the names of anonymous types: the characters \<^verbatim>\<open>backslashEscape\<close> treats, what
  it means that \<open>t\<close> is \<open>s\<close> with each of them replaced by two characters of which the
  first is a backslash (and both, for a backslash), the components joined by dots, and the
  chain of a node and its ancestors up to, and without, the first group.
\<close>

definition special :: "char \<Rightarrow> bool" where
  "special c = (c = CHR 0x5C \<or> c = CHR ''/'' \<or> c = CHR ''.'' \<or> c = CHR ''@'')"

fun backslash_escaped :: "string \<Rightarrow> string \<Rightarrow> bool" where
  "backslash_escaped [] t = (t = [])"
| "backslash_escaped (c # s) t =
     (if special c then
        (case t of
           a # b # t' \<Rightarrow> a = CHR 0x5C \<and> (if c = CHR 0x5C then b = CHR 0x5C else True)
                          \<and> backslash_escaped s t'
         | _ \<Rightarrow> False)
      else (case t of a # t' \<Rightarrow> a = c \<and> backslash_escaped s t' | [] \<Rightarrow> False))"

fun join_dots :: "string list \<Rightarrow> string" where
  "join_dots [] = []"
| "join_dots [s] = s"
| "join_dots (s # t # ts) = s @ ''.'' @ join_dots (t # ts)"

fun upto_group :: "heap \<Rightarrow> nat \<Rightarrow> nat list \<Rightarrow> bool" where
  "upto_group h x [] = (x < length h \<and> ISGROUP (nsort (h ! x)))"
| "upto_group h x (y # ys) =
     (y = x \<and> x < length h \<and> \<not> ISGROUP (nsort (h ! x))
      \<and> (case container (h ! x) of None \<Rightarrow> False | Some p \<Rightarrow> upto_group h p ys))"

text \<open>A structure type \<open>s\<close> in the root group and, inside it, a structure type \<open>a.b\<close>.\<close>

definition fqn_heap :: heap where
  "fqn_heap =
    [blank\<lparr>nsort := NCD4_GROUP, name := ''root'', group_isdataset := True, meta_id := 7\<rparr>,
     blank\<lparr>nsort := NCD4_TYPE, subsort := NC_STRUCT, name := ''s'', container := Some 0\<rparr>,
     blank\<lparr>nsort := NCD4_TYPE, subsort := NC_STRUCT, name := ''a.b'', container := Some 1\<rparr>]"

text \<open>
  For the idempotent build of composite types: the heap without its offsets (what
  \<^verbatim>\<open>computeOffsets\<close> leaves alone), the calls that define a type, and what it means that
  a type node resolves to a name and a group (step 1 of \<^verbatim>\<open>buildStructureType\<close> and
  \<^verbatim>\<open>buildSequenceType\<close>: the alternate identity if there is one, else the group of the
  node and the name made from its path).
\<close>

definition erase :: "heap \<Rightarrow> heap" where
  "erase h = map (\<lambda>n. n\<lparr>meta_offset := 0\<rparr>) h"

fun is_type_def :: "call \<Rightarrow> bool" where
  "is_type_def (Def_enum g b n) = True"
| "is_type_def (Def_opaque g sz n) = True"
| "is_type_def (Def_vlen g n b) = True"
| "is_type_def (Def_compound g sz n) = True"
| "is_type_def c = False"

definition type_defs :: "call list \<Rightarrow> nat" where
  "type_defs cs = length (filter is_type_def cs)"

definition resolves :: "env \<Rightarrow> heap \<Rightarrow> nat \<Rightarrow> string \<Rightarrow> string \<Rightarrow> nat \<Rightarrow> bool" where
  "resolves E h x tail nm g =
     (x < length h \<and> g < length h \<and>
      (case groupFor h (Some x) of
         Ret gi \<Rightarrow>
           (case nc4_orig_name (h ! x) of
              Some orig \<Rightarrow> nm = orig \<and> nc4_orig_group (h ! x) = Some g
            | None \<Rightarrow> g = gi \<and> getFieldFQN E h (Some x) tail = Ret (Some nm))
       | _ \<Rightarrow> False))"

text \<open>
  A structure type \<open>s\<close> with the fields \<open>x\<close> and \<open>y\<close> of type Int32 in the root group,
  the state after it has been built once, and a sequence type \<open>q\<close> with one field and no
  marker attribute.
\<close>

definition struct_heap :: heap where
  "struct_heap =
    [blank\<lparr>nsort := NCD4_GROUP, name := ''root'', group_isdataset := True, meta_id := 7\<rparr>,
     blank\<lparr>nsort := NCD4_TYPE, subsort := NC_INT, name := ''Int32'', container := Some 0,
           meta_id := NC_INT\<rparr>,
     blank\<lparr>nsort := NCD4_TYPE, subsort := NC_STRUCT, name := ''s'', container := Some 0,
           vars := [3, 4]\<rparr>,
     blank\<lparr>nsort := NCD4_VAR, subsort := NC_INT, name := ''x'', container := Some 2,
           basetype := Some 1\<rparr>,
     blank\<lparr>nsort := NCD4_VAR, subsort := NC_INT, name := ''y'', container := Some 2,
           basetype := Some 1\<rparr>]"

definition struct_built :: bstate where
  "struct_built =
    \<lparr>nodes =
       [blank\<lparr>nsort := NCD4_GROUP, name := ''root'', group_isdataset := True, meta_id := 7\<rparr>,
        blank\<lparr>nsort := NCD4_TYPE, subsort := NC_INT, name := ''Int32'', container := Some 0,
              meta_id := NC_INT\<rparr>,
        blank\<lparr>nsort := NCD4_TYPE, subsort := NC_STRUCT, name := ''s'', container := Some 0,
              vars := [3, 4], meta_id := 100, meta_offset := 8\<rparr>,
        blank\<lparr>nsort := NCD4_VAR, subsort := NC_INT, name := ''x'', container := Some 2,
              basetype := Some 1, meta_offset := 0\<rparr>,
        blank\<lparr>nsort := NCD4_VAR, subsort := NC_INT, name := ''y'', container := Some 2,
              basetype := Some 1, meta_offset := 4\<rparr>],
     dest =
       \<lparr>calls = [Inq_typeid 7 (Some ''s_t''), Def_compound 7 8 (Some ''s_t''),
                 Insert_compound 7 100 ''x'' 0 NC_INT, Insert_compound 7 100 ''y'' 4 NC_INT],
          typenames = [((7, ''s_t''), 100)], next_id = 101, faults = (\<lambda>k. NC_NOERR)\<rparr>\<rparr>"

definition plain_seq_heap :: heap where
  "plain_seq_heap =
    [blank\<lparr>nsort := NCD4_GROUP, name := ''root'', group_isdataset := True, meta_id := 7\<rparr>,
     blank\<lparr>nsort := NCD4_TYPE, subsort := NC_INT, name := ''Int32'', container := Some 0,
           meta_id := NC_INT\<rparr>,
     blank\<lparr>nsort := NCD4_TYPE, subsort := NC_SEQ, name := ''q'', container := Some 0,
           vars := [3]\<rparr>,
     blank\<lparr>nsort := NCD4_VAR, subsort := NC_INT, name := ''v'', container := Some 2,
           basetype := Some 1\<rparr>]"

text \<open>
  A structure with an \<^verbatim>\<open>Int32\<close> field, a nested structure of one \<^verbatim>\<open>Float64\<close> field and a
  sequence field.
\<close>

definition nested_heap :: heap where
  "nested_heap =
    [blank\<lparr>nsort := NCD4_TYPE, subsort := NC_STRUCT, name := ''outer'', vars := [1, 2, 3]\<rparr>,
     blank\<lparr>nsort := NCD4_VAR, subsort := NC_INT, name := ''a'', container := Some 0,
           basetype := Some 6\<rparr>,
     blank\<lparr>nsort := NCD4_VAR, subsort := NC_STRUCT, name := ''b'', container := Some 0,
           basetype := Some 4\<rparr>,
     blank\<lparr>nsort := NCD4_VAR, subsort := NC_SEQ, name := ''c'', container := Some 0,
           basetype := Some 7\<rparr>,
     blank\<lparr>nsort := NCD4_TYPE, subsort := NC_STRUCT, name := ''inner'', vars := [5]\<rparr>,
     blank\<lparr>nsort := NCD4_VAR, subsort := NC_DOUBLE, name := ''d'', container := Some 4,
           basetype := Some 8\<rparr>,
     blank\<lparr>nsort := NCD4_TYPE, subsort := NC_INT, name := ''Int32'', meta_id := NC_INT\<rparr>,
     blank\<lparr>nsort := NCD4_TYPE, subsort := NC_SEQ, name := ''c_t'', vars := [9]\<rparr>,
     blank\<lparr>nsort := NCD4_TYPE, subsort := NC_DOUBLE, name := ''Float64'',
           meta_id := NC_DOUBLE\<rparr>,
     blank\<lparr>nsort := NCD4_VAR, subsort := NC_DOUBLE, name := ''e'', container := Some 7,
           basetype := Some 8\<rparr>]"

section \<open>Properties\<close>

lemmas evals = blank_def sample_env_def empty_store_def deref_def ISGROUP_def ISTYPE_def
  ISVAR_def NCD4_typesize_def backslashEscape_def getFieldFQN_def groupFor_def
  computeTypeSize_def computeOffsets_def set_offset_def set_id_def set_cmpdid_def
  fresh_id_def define_type_def lookup_type_def store_call_def commit_def pass_def
  ISTOPLEVEL_def NCD4_findAttr_def buildGroups_def buildDimension_def buildEnumeration_def
  buildOpaque_def buildCompound_def buildStructureType_def buildSequenceType_def
  buildSequenceType_define_def
  buildAttributes_def buildMaps_def buildMetaData_def buildAtomicVar_def buildStructure_def
  buildSequence_def buildVariable_def build_node_def build_def NCD4_metabuild_def
  compileAttrValues_def UCARTAGNC4_def UCARTAGVLEN_def NC4TAGMAPS_def Let_def
  run_status_def run_calls_def run_nodes_def sample_fqn_def sample_order_def
  buildMaps_loop.simps freeStringMemory_def

lemmas conv_evals = sample_lf_def sample_lld_def sample_llu_def scan_decimal_def isspace_def
  digit_value_def convertString_def downConvert_def put_low_def f64_to_f32_def
  round_shift_def copyAtomic_def le_bytes_def strdup_def decodeEconst_def

subsection \<open>Attribute values of a floating kind\<close>

text \<open>
  C1. Encoding the values of an attribute of a primitive kind and reading the buffer back
  with the width of that kind should give the parsed values, narrowed to the declared
  width. For the 32-bit float kind the code does not: \<^verbatim>\<open>convertString\<close> already
  narrows, storing the float over the low four bytes of the parsed double, and
  \<^verbatim>\<open>compileAttrValues\<close> then calls \<^verbatim>\<open>downConvert\<close> again, which reads those eight
  bytes as a double and narrows that. The text 1.0 parses to the double 1.0
  (\<open>0x3FF0000000000000\<close>), whose float is \<open>0x3F800000\<close>, bytes 00 00 80 3F; the buffer
  holds 02 00 80 3F, the float 1.0000002.
\<close>

theorem C1_float_not_round_trip:
  "compileAttrValues sample_env float_heap (Some 0) [''1.0'']
     = Ret (NC_NOERR, Some ([0x02, 0x00, 0x80, 0x3F], []))
   \<and> sscanf_lf sample_env ''1.0'' = Some 0x3FF0000000000000
   \<and> take (NCD4_typesize NC_FLOAT) (le_bytes (ucast (f64_to_f32 0x3FF0000000000000)))
     = [0x00, 0x00, 0x80, 0x3F]"
  by (simp add: float_heap_def evals conv_evals)

theorem C1_float_not_round_trip_witness:
  "compileAttrValues sample_env float_heap (Some 0) [''1.0'']
     \<noteq> Ret (NC_NOERR,
             Some (take (NCD4_typesize NC_FLOAT) (le_bytes (ucast (f64_to_f32 0x3FF0000000000000))),
                   []))"
  using C1_float_not_round_trip by simp

subsection \<open>Failures while defining variables\<close>

text \<open>
  C4. The first store call that fails should abort the build pass and its status should
  reach the caller of \<^verbatim>\<open>NCD4_metabuild\<close>, also when it happens while a top-level
  variable is defined. The last loop of \<^verbatim>\<open>build\<close> drops the value of
  \<^verbatim>\<open>buildVariable\<close>: with two variables and a store that refuses the first
  definition, the second variable is still defined and the pass returns success.
\<close>

theorem C4_variable_failure_dropped:
  "run_status (NCD4_metabuild sample_env vars_meta
                 \<lparr>nodes = vars_heap, dest = refusing_store\<rparr> 7) = Some NC_NOERR
   \<and> run_calls (NCD4_metabuild sample_env vars_meta
                 \<lparr>nodes = vars_heap, dest = refusing_store\<rparr> 7)
     = [Def_var 7 ''temp'' NC_DOUBLE 0 [], Def_var 7 ''pressure'' NC_DOUBLE 0 []]
   \<and> fst (fst (store_call refusing_store (Def_var 7 ''temp'' NC_DOUBLE 0 []))) = NC_EINVAL"
  by (simp add: vars_meta_def vars_heap_def refusing_store_def evals)

subsection \<open>The direct variable-length encoding of a sequence\<close>

text \<open>
  C6. A sequence type with the marker attribute and exactly one field should get a
  variable-length type over the type of that field and no compound type. The code reads
  the field through \<^verbatim>\<open>field1\<close>, which is initialised to the null pointer and never
  assigned: the call dereferences a null pointer before any type is defined.
\<close>

theorem C6_direct_vlen_null_field:
  "buildSequenceType sample_env sample_meta \<lparr>nodes = seq_heap, dest = empty_store\<rparr> (Some 2)
     = NullDeref"
  by (simp add: sample_meta_def seq_heap_def evals)

subsection \<open>Basic facts\<close>

lemma deref_Some: "i < length h \<Longrightarrow> deref h (Some i) = Ret (h ! i)"
  by (simp add: deref_def)

lemma calls_answer: "calls (snd (answer D c)) = calls D"
  by (cases c) (auto simp: fresh_id_def define_type_def lookup_type_def split: option.splits)

lemma calls_store_call: "calls (snd (store_call D c)) = calls D @ [c]"
  by (simp add: store_call_def Let_def calls_answer)

lemma calls_commit:
  "calls (dest (snd (commit S i (store_call (dest S) c)))) = calls (dest S) @ [c]"
  using calls_store_call [of "dest S" c]
  by (cases "store_call (dest S) c") (auto simp: commit_def)

lemma calls_pass:
  "calls (dest (snd (pass S (store_call (dest S) c)))) = calls (dest S) @ [c]"
  using calls_store_call [of "dest S" c]
  by (cases "store_call (dest S) c") (auto simp: pass_def)

subsection \<open>Opaque types of variable length\<close>

text \<open>
  C5, as the spec states it: the variable-length byte type is defined once, and building
  two opaque nodes of size 0 issues one definition call. The code has no record of an
  earlier definition and does not probe the store: the two nodes give two calls (and a
  store that refuses names in use refuses the second).
\<close>

theorem C5_two_opaque_two_calls:
  "run_calls (build_types sample_env opaque_meta
                \<lparr>nodes = opaque_heap, dest = empty_store\<rparr> [1, 2])
     = [Def_vlen 7 (Some ''_bytestring'') NC_UBYTE, Def_vlen 7 (Some ''_bytestring'') NC_UBYTE]
   \<and> run_status (build_types sample_env opaque_meta
                \<lparr>nodes = opaque_heap, dest = empty_store\<rparr> [1, 2]) = Some NC_ENAMEINUSE"
  by (simp add: opaque_meta_def opaque_heap_def evals)

text \<open>
  C5, amended: every time an opaque node of size 0 is built, the builder issues one call
  that defines a variable-length type of unsigned bytes named \<open>_bytestring\<close> in the root
  group, without looking for an earlier definition; the status is the store's, and on
  success the node's id is the id that call handed back.
\<close>

theorem C5_opaque_defined_per_node:
  assumes "groupFor (nodes S) (Some op) = Ret gi"
    and "op < length (nodes S)" and "opaque_size (nodes S ! op) = 0"
    and "root B = Some r" and "r < length (nodes S)"
  shows "buildOpaque B S (Some op)
           = Ret (commit S op (store_call (dest S)
                    (Def_vlen (meta_id (nodes S ! r)) (Some ''_bytestring'') NC_UBYTE)))
         \<and> calls (dest (snd (commit S op (store_call (dest S)
                    (Def_vlen (meta_id (nodes S ! r)) (Some ''_bytestring'') NC_UBYTE)))))
           = calls (dest S) @ [Def_vlen (meta_id (nodes S ! r)) (Some ''_bytestring'') NC_UBYTE]"
  using assms by (simp add: buildOpaque_def deref_Some calls_commit)

theorem C5_opaque_defined_per_node_witness:
  "buildOpaque opaque_meta \<lparr>nodes = opaque_heap, dest = empty_store\<rparr> (Some 2)
     = Ret (NC_NOERR,
            \<lparr>nodes = set_id opaque_heap 2 100,
               dest = \<lparr>calls = [Def_vlen 7 (Some ''_bytestring'') NC_UBYTE],
                        typenames = [((7, ''_bytestring''), 100)], next_id = 101,
                        faults = (\<lambda>k. NC_NOERR)\<rparr>\<rparr>)"
proof -
  let ?S = "\<lparr>nodes = opaque_heap, dest = empty_store\<rparr>"
  have pre: "groupFor (nodes ?S) (Some 2) = Ret 0" "2 < length (nodes ?S)"
    "opaque_size (nodes ?S ! 2) = 0" "root opaque_meta = Some 0" "0 < length (nodes ?S)"
    by (simp_all add: opaque_heap_def opaque_meta_def blank_def groupFor_def deref_def)
  note r = C5_opaque_defined_per_node [OF pre, THEN conjunct1]
  show ?thesis
    by (simp add: r) (simp add: opaque_heap_def blank_def empty_store_def commit_def store_call_def
          define_type_def)
qed

subsection \<open>Map references\<close>

lemma free_strings_offset: "free_strings n off = n + off"
  by (induction n arbitrary: off) simp_all

text \<open>
  C9. For a variable with one or more map references, \<^verbatim>\<open>buildMaps\<close> should put one
  text attribute on the variable, holding the fully qualified names of the mapped
  variables in the order of the map list. It does issue that call, but then hands the
  name array to \<^verbatim>\<open>freeStringMemory\<close>, which has advanced its pointer past every entry
  when it frees it: with one map reference or more, the pointer freed is not the one
  allocated, and \<^verbatim>\<open>buildMaps\<close> does not return. (The allocation of the name array
  succeeds and the variable lies in a group.)
\<close>

theorem C9_maps_invalid_free:
  assumes "v < length (nodes S)" and "maps (nodes S ! v) \<noteq> []"
    and "groupFor (nodes S) (Some v) = Ret gi"
    and "malloc_ok E (length (maps (nodes S ! v)) * 8)"
  shows "buildMaps E B S (Some v) = InvalidFree"
proof -
  have f: "freeStringMemory (Some (map (NCD4_makeFQN E (nodes S)) (maps (nodes S ! v))))
             (length (maps (nodes S ! v))) = InvalidFree"
    using assms(2) by (simp add: freeStringMemory_def free_strings_offset)
  have "buildMaps_loop E S (Some v) (nodes S ! v) (length (maps (nodes S ! v))) 0 NC_NOERR
          = InvalidFree"
    using assms f
    by (subst buildMaps_loop.simps) (simp add: Let_def split: prod.splits)
  then show ?thesis
    using assms(1) by (simp add: buildMaps_def deref_Some)
qed

theorem C9_maps_invalid_free_witness:
  "buildMaps sample_env sample_meta \<lparr>nodes = maps_heap, dest = empty_store\<rparr> (Some 4)
     = InvalidFree"
proof -
  let ?S = "\<lparr>nodes = maps_heap, dest = empty_store\<rparr>"
  have pre: "4 < length (nodes ?S)" "maps (nodes ?S ! 4) \<noteq> []"
    "groupFor (nodes ?S) (Some 4) = Ret 0"
    "malloc_ok sample_env (length (maps (nodes ?S ! 4)) * 8)"
    by (simp_all add: maps_heap_def blank_def groupFor_def deref_def sample_env_def)
  show ?thesis
    by (rule C9_maps_invalid_free [OF pre])
qed

subsection \<open>The size of an enumeration\<close>

text \<open>
  C10. For a field whose type is an enumeration, \<^verbatim>\<open>computeTypeSize\<close> returns the
  byte width of the integer type under the enumeration (the Atomic Type Table's entry for
  that kind, whose id the first loop of \<^verbatim>\<open>NCD4_metabuild\<close> makes the id of the
  type node).
\<close>

theorem C10_enum_field_size:
  assumes "f < length h" and "basetype (h ! f) = Some e"
    and "e < length h" and "nsort (h ! e) = NCD4_TYPE" and "subsort (h ! e) = NC_ENUM"
    and "basetype (h ! e) = Some b" and "b < length h" and "nsort (h ! b) = NCD4_TYPE"
    and "subsort (h ! b) \<in> integer_kinds"
    and "meta_id (h ! b) = subsort (h ! b)"
  shows "computeTypeSize h (basetype (h ! f)) = Ret (of_nat (NCD4_typesize (subsort (h ! b))))"
proof -
  obtain n where n: "length h = Suc n"
    using assms(1) by (cases "length h") auto
  have "computeTypeSize_fuel (Suc n) h (Some b) = Ret (of_nat (NCD4_typesize (meta_id (h ! b))))"
    using assms(7-10) by (auto simp: deref_Some integer_kinds_def)
  then show ?thesis
    using assms n by (simp add: computeTypeSize_def deref_Some)
qed

theorem C10_enum_field_size_witness:
  "computeTypeSize enum_heap (basetype (enum_heap ! 5)) = Ret 4"
proof -
  have pre: "5 < length enum_heap" "basetype (enum_heap ! 5) = Some 2"
    "2 < length enum_heap" "nsort (enum_heap ! 2) = NCD4_TYPE" "subsort (enum_heap ! 2) = NC_ENUM"
    "basetype (enum_heap ! 2) = Some 1" "1 < length enum_heap" "nsort (enum_heap ! 1) = NCD4_TYPE"
    "subsort (enum_heap ! 1) \<in> integer_kinds"
    "meta_id (enum_heap ! 1) = subsort (enum_heap ! 1)"
    by (simp_all add: enum_heap_def blank_def integer_kinds_def)
  note r = C10_enum_field_size [OF pre]
  show ?thesis
    by (simp add: r) (simp add: enum_heap_def blank_def NCD4_typesize_def)
qed

subsection \<open>Enumeration constants in attribute values\<close>

lemma put_low_self8: "put_low 8 w (ucast (ucast w :: 8 word)) = w"
  by (rule bit_word_eqI) (auto simp: put_low_def bit_simps)

lemma put_low_self16: "put_low 16 w (ucast (ucast w :: 16 word)) = w"
  by (rule bit_word_eqI) (auto simp: put_low_def bit_simps)

lemma put_low_self32: "put_low 32 w (ucast (ucast w :: 32 word)) = w"
  by (rule bit_word_eqI) (auto simp: put_low_def bit_simps)

lemma find_econst_name_find:
  "\<forall>p\<in>set ps. p < length h \<Longrightarrow>
     find_econst_name h ps t = Ret (find (\<lambda>p. name (h ! p) = t) ps)"
  by (induction ps) (simp_all add: deref_Some)

lemma find_econst_value_none:
  "\<forall>p\<in>set ps. p < length h \<Longrightarrow> find_econst_value h ps Local_number = Ret None"
  by (induction ps) (simp_all add: deref_Some)

lemma downConvert_integer:
  "subsort t \<in> integer_kinds \<Longrightarrow> downConvert w t = (NC_NOERR, w)"
  by (auto simp: integer_kinds_def downConvert_def put_low_self8 put_low_self16 put_low_self32)

lemma convertString_integer:
  "subsort t \<in> integer_kinds \<Longrightarrow>
     convertString E tab c t s =
       (case scan_family E (subsort t) s of
          None \<Rightarrow> (NC_ERANGE, c, tab) | Some v \<Rightarrow> (NC_NOERR, v, tab))"
  by (auto simp: integer_kinds_def convertString_def scan_family_def downConvert_integer
           split: option.splits)

lemma copyAtomic_integer:
  "k \<in> integer_kinds \<Longrightarrow> copyAtomic w k len = take len (le_bytes w)"
  by (auto simp: integer_kinds_def copyAtomic_def)

lemma decodeEconst_find:
  assumes "\<forall>p\<in>set (en_econsts e). p < length h"
    and "basetype e = Some b" and "b < length h" and "subsort (h ! b) \<in> integer_kinds"
  shows "decodeEconst E h tab e text conv =
     Ret (case find (\<lambda>p. name (h ! p) = text) (en_econsts e) of
            Some p \<Rightarrow> (NC_NOERR, en_ecvalue (h ! p), tab)
          | None \<Rightarrow>
              (case scan_family E (subsort (h ! b)) text of
                 None \<Rightarrow> (NC_ERANGE, conv, tab)
               | Some v \<Rightarrow> (NC_EINVAL, conv, tab)))"
  using assms
  by (simp add: decodeEconst_def find_econst_name_find find_econst_value_none deref_Some
        convertString_integer split: option.splits)

text \<open>
  C3. One value text of an attribute whose type is an enumeration over an integer kind
  should be encoded as the first constant of that name or, when no name matches and the
  text is a number of the family of the underlying kind, as the first constant of that
  value. The code does the first and not the second: the first constant, in declared
  order, whose name is the text gives the value, in the width of the underlying kind; if
  no name matches, the text is parsed, but the search by value compares the address of
  the parsed number with the address of the value of each constant, so it finds none, and
  encoding fails with an error status and no buffer whether the text is a number or not.
\<close>

theorem C3_enum_number_not_matched:
  assumes "e < length h" and "subsort (h ! e) = NC_ENUM"
    and "basetype (h ! e) = Some b" and "b < length h"
    and "nsort (h ! b) = NCD4_TYPE" and "subsort (h ! b) \<in> integer_kinds"
    and "meta_id (h ! b) = subsort (h ! b)"
    and "\<forall>p\<in>set (en_econsts (h ! e)). p < length h"
    and "malloc_ok E (NCD4_typesize (subsort (h ! b)))"
  shows "compileAttrValues E h (Some e) [text] =
     Ret (case find (\<lambda>p. name (h ! p) = text) (en_econsts (h ! e)) of
            Some p \<Rightarrow>
              (NC_NOERR,
               Some (take (NCD4_typesize (subsort (h ! b))) (le_bytes (en_ecvalue (h ! p))), []))
          | None \<Rightarrow>
              (case scan_family E (subsort (h ! b)) text of
                 None \<Rightarrow> (NC_ERANGE, None)
               | Some v \<Rightarrow> (NC_EINVAL, None)))"
proof -
  have k: "subsort (h ! b) \<le> NC_MAX_ATOMIC_TYPE"
    using assms(6) by (auto simp: integer_kinds_def)
  show ?thesis
    using assms k
    by (simp add: compileAttrValues_def deref_Some ISTYPE_def Let_def
          decodeEconst_find [OF assms(8) assms(3) assms(4) assms(6)]
          downConvert_integer copyAtomic_integer split: option.splits)
qed

theorem C3_enum_number_not_matched_witness:
  "compileAttrValues sample_env enum_heap (Some 2) [''GREEN'']
     = Ret (NC_NOERR, Some ([1, 0, 0, 0], []))
   \<and> en_ecvalue (enum_heap ! 4) = 1
   \<and> scan_family sample_env NC_INT ''1'' = Some 1
   \<and> compileAttrValues sample_env enum_heap (Some 2) [''1''] = Ret (NC_EINVAL, None)
   \<and> compileAttrValues sample_env enum_heap (Some 2) [''BLUE''] = Ret (NC_ERANGE, None)"
proof -
  have pre: "2 < length enum_heap" "subsort (enum_heap ! 2) = NC_ENUM"
    "basetype (enum_heap ! 2) = Some 1" "1 < length enum_heap"
    "nsort (enum_heap ! 1) = NCD4_TYPE" "subsort (enum_heap ! 1) \<in> integer_kinds"
    "meta_id (enum_heap ! 1) = subsort (enum_heap ! 1)"
    "\<forall>p\<in>set (en_econsts (enum_heap ! 2)). p < length enum_heap"
    "malloc_ok sample_env (NCD4_typesize (subsort (enum_heap ! 1)))"
    by (simp_all add: enum_heap_def blank_def integer_kinds_def sample_env_def)
  note r = C3_enum_number_not_matched [OF pre]
  have scans: "scan_family sample_env NC_INT ''GREEN'' = None"
    "scan_family sample_env NC_INT ''BLUE'' = None"
    "scan_family sample_env NC_INT ''1'' = Some 1"
    by (simp_all add: scan_family_def sample_env_def sample_lld_def scan_decimal_def
          isspace_def digit_value_def)
  show ?thesis
    using scans
    by (simp add: r) (simp add: enum_heap_def blank_def NCD4_typesize_def le_bytes_def)
qed

subsection \<open>Names of anonymous composite types\<close>

lemma escape_chars_escaped: "backslash_escaped s (escape_chars s)"
  by (induction s) (auto simp: special_def)

lemma join_dots_Cons: "join_dots (s # ss) = s @ concat (map (\<lambda>t. ''.'' @ t) ss)"
  by (induction ss arbitrary: s) auto

lemma upto_group_det: "upto_group h x c1 \<Longrightarrow> upto_group h x c2 \<Longrightarrow> c1 = c2"
proof (induction c1 arbitrary: x c2)
  case Nil
  then show ?case by (cases c2) auto
next
  case (Cons y ys)
  then show ?case
    by (cases c2) (auto split: option.splits)
qed

lemma upto_group_bound: "upto_group h x c \<Longrightarrow> \<forall>i\<in>set c. i < length h"
  by (induction c arbitrary: x) (auto split: option.splits)

lemma upto_group_suffix:
  "upto_group h x c \<Longrightarrow> y \<in> set c \<Longrightarrow> \<exists>zs. upto_group h y (y # zs) \<and> length zs < length c"
proof (induction c arbitrary: x)
  case Nil
  then show ?case by simp
next
  case (Cons a c)
  show ?case
  proof (cases "y = a")
    case True
    with Cons.prems show ?thesis by (intro exI [of _ c]) auto
  next
    case False
    with Cons.prems obtain p where "upto_group h p c" and "y \<in> set c"
      by (auto split: option.splits)
    from Cons.IH [OF this] show ?thesis by auto
  qed
qed

lemma upto_group_distinct: "upto_group h x c \<Longrightarrow> distinct c"
proof (induction c arbitrary: x)
  case Nil
  then show ?case by simp
next
  case (Cons a c)
  then obtain p where p: "upto_group h p c" and ax: "a = x"
    by (auto split: option.splits)
  have "a \<notin> set c"
  proof
    assume "a \<in> set c"
    from upto_group_suffix [OF p this] obtain zs
      where z: "upto_group h a (a # zs)" "length zs < length c" by auto
    from upto_group_det [OF z(1)] Cons.prems ax have "a # zs = a # c" by blast
    with z(2) show False by simp
  qed
  with Cons.IH [OF p] show ?case by simp
qed

lemma upto_group_length: assumes "upto_group h x c" shows "length c \<le> length h"
proof -
  have "card (set c) \<le> card {..<length h}"
    using upto_group_bound [OF assms] by (intro card_mono) auto
  then show ?thesis
    using upto_group_distinct [OF assms] by (simp add: distinct_card)
qed

lemma collect_path_chain:
  "upto_group h x c \<Longrightarrow> length c < k \<Longrightarrow> collect_path k h (Some x) acc = Ret (rev c @ acc)"
proof (induction c arbitrary: x k acc)
  case Nil
  then obtain k' where "k = Suc k'" by (cases k) auto
  with Nil show ?case by (simp add: deref_Some)
next
  case (Cons a c)
  then obtain k' where k: "k = Suc k'" by (cases k) auto
  from Cons.prems obtain p where p: "container (h ! x) = Some p" "upto_group h p c" "a = x"
    "x < length h" "\<not> ISGROUP (nsort (h ! x))"
    by (auto split: option.splits)
  from Cons.IH [OF p(2), of k' "x # acc"] Cons.prems(2) k p show ?case
    by (simp add: deref_Some)
qed

lemma fqn_loop_rest:
  "\<forall>i\<in>set path. i < length h \<and> malloc_ok E (1 + 2 * length (name (h ! i))) \<Longrightarrow> 0 < n \<Longrightarrow>
     fqn_loop E h path n fqn
       = Ret (Some (fqn @ concat (map (\<lambda>t. ''.'' @ t) (map (\<lambda>i. escape_chars (name (h ! i))) path))))"
  by (induction path arbitrary: n fqn) (simp_all add: deref_Some backslashEscape_def)

lemma fqn_loop_join:
  assumes "\<forall>i\<in>set path. i < length h \<and> malloc_ok E (1 + 2 * length (name (h ! i)))"
  shows "fqn_loop E h path 0 [] = Ret (Some (join_dots (map (\<lambda>i. escape_chars (name (h ! i))) path)))"
proof (cases path)
  case Nil
  then show ?thesis by simp
next
  case (Cons e es)
  with assms fqn_loop_rest [of es h E "Suc 0" "escape_chars (name (h ! e))"] show ?thesis
    by (simp add: deref_Some backslashEscape_def join_dots_Cons)
qed

text \<open>
  C7, as the spec states it: each of the characters backslash, slash, dot and at-sign is
  doubled, so that it appears twice in the escaped component. The code writes two
  backslashes in place of each of them: the dot of the component \<open>a.b\<close> is gone from the
  name, which has no second dot.
\<close>

theorem C7_dot_not_doubled:
  "getFieldFQN sample_env fqn_heap (Some 2) ''_t''
     = Ret (Some (''s.a'' @ [CHR 0x5C, CHR 0x5C] @ ''b_t''))
   \<and> escape_chars ''a.b'' = [CHR ''a'', CHR 0x5C, CHR 0x5C, CHR ''b'']
   \<and> count_list (escape_chars ''a.b'') (CHR ''.'') = 0"
  by (simp add: fqn_heap_def evals)

text \<open>
  C7, amended: for a node below a group, the name is built from the names of the node and
  its ancestors that are not groups, in root-to-leaf order, up to and without the first
  enclosing group; each component is escaped, the escaped components are joined with a
  dot, and the suffix is appended. Escaping replaces each backslash, slash, dot and at-sign
  by two characters, the first of them a backslash (so that a backslash is doubled), and
  copies every other character. (What the second character is for slash, dot and at-sign
  is left open here; the allocations of the escaped names have to succeed.)
\<close>

theorem C7_field_fqn:
  assumes "upto_group h x chain"
    and "\<forall>i\<in>set chain. malloc_ok E (1 + 2 * length (name (h ! i)))"
  shows "getFieldFQN E h (Some x) tail
           = Ret (Some (join_dots (map (\<lambda>i. escape_chars (name (h ! i))) (rev chain)) @ tail))
         \<and> (\<forall>i\<in>set chain. backslash_escaped (name (h ! i)) (escape_chars (name (h ! i))))"
proof -
  have "collect_path (Suc (length h)) h (Some x) [] = Ret (rev chain)"
    using collect_path_chain [OF assms(1), of "Suc (length h)" "[]"] upto_group_length [OF assms(1)]
    by simp
  moreover have "fqn_loop E h (rev chain) 0 []
      = Ret (Some (join_dots (map (\<lambda>i. escape_chars (name (h ! i))) (rev chain))))"
    using assms(2) upto_group_bound [OF assms(1)] by (intro fqn_loop_join) auto
  ultimately show ?thesis
    by (simp add: getFieldFQN_def escape_chars_escaped)
qed

theorem C7_field_fqn_witness:
  "getFieldFQN sample_env fqn_heap (Some 2) ''_cmpd_t''
     = Ret (Some (''s.a'' @ [CHR 0x5C, CHR 0x5C] @ ''b_cmpd_t''))"
proof -
  have pre: "upto_group fqn_heap 2 [2, 1]"
    "\<forall>i\<in>set [2, 1]. malloc_ok sample_env (1 + 2 * length (name (fqn_heap ! i)))"
    by (simp_all add: fqn_heap_def blank_def ISGROUP_def sample_env_def)
  note r = C7_field_fqn [OF pre, THEN conjunct1]
  show ?thesis
    by (simp add: r) (simp add: fqn_heap_def blank_def)
qed

subsection \<open>Building a composite type twice\<close>

lemma run_bind_Ret_iff: "run_bind m f = Ret y \<longleftrightarrow> (\<exists>x. m = Ret x \<and> f x = Ret y)"
  by (cases m) auto

lemma deref_Ret_iff: "deref h p = Ret n \<longleftrightarrow> (\<exists>i. p = Some i \<and> i < length h \<and> n = h ! i)"
  by (auto simp: deref_def split: option.splits)

lemma erase_set_offset: "erase (set_offset h i v) = erase h"
  by (cases "i < length h") (simp_all add: erase_def set_offset_def map_update list_update_same_conv list_update_beyond)

lemma erase_length: "erase h' = erase h \<Longrightarrow> length h' = length h"
  by (metis erase_def length_map)

lemma erase_nth:
  assumes "erase h' = erase h" and "i < length h"
  shows "(h' ! i)\<lparr>meta_offset := 0\<rparr> = (h ! i)\<lparr>meta_offset := 0\<rparr>"
proof -
  have "erase h' ! i = erase h ! i" using assms by simp
  then show ?thesis
    using assms erase_length [OF assms(1)] by (simp add: erase_def)
qed

lemma erase_meta_id:
  assumes "erase h' = erase h" and "i < length h"
  shows "meta_id (h' ! i) = meta_id (h ! i)"
  using arg_cong [OF erase_nth [OF assms], of meta_id] by simp

lemma computeOffsets_erase:
  "computeOffsets_fuel k h c = Ret h' \<Longrightarrow> erase h' = erase h"
  "offsets_loop k h fs off = Ret (h'', off') \<Longrightarrow> erase h'' = erase h"
proof (induction k h c and k h fs off arbitrary: h' and h'' off'
       rule: computeOffsets_fuel_offsets_loop.induct)
  case (1 h cmpd)
  then show ?case by simp
next
  case (2 k h cmpd)
  then show ?case
    by (auto simp: run_bind_Ret_iff erase_set_offset)
next
  case (3 k h offset)
  then show ?case by simp
next
  case (4 k h f fs offset)

  from "4.prems" obtain field h1 size where
    a: "deref h (Some f) = Ret field"
    and b: "(if subsort field = NC_STRUCT then
            run_bind (computeOffsets_fuel k h (basetype field)) (\<lambda>h1.
              run_bind (computeTypeSize h1 (basetype field)) (\<lambda>size. Ret (h1, size)))
          else if subsort field = NC_SEQ then Ret (h, of_nat sizeof_nc_vlen_t)
          else run_bind (computeTypeSize h (basetype field)) (\<lambda>size. Ret (h, size))) = Ret (h1, size)"
    and c: "offsets_loop k (set_offset h1 f offset) fs (offset + size) = Ret (h'', off')"
    by (auto simp: run_bind_Ret_iff)
  have e1: "erase h1 = erase h"
    using b "4.IH"(1) by (auto simp: run_bind_Ret_iff split: if_splits)
  have "erase h'' = erase (set_offset h1 f offset)"
    using "4.IH"(2) c by blast
  then show ?case using e1 by (simp add: erase_set_offset)
qed

lemma faults_answer: "faults (snd (answer D c)) = faults D"
  by (cases c) (auto simp: fresh_id_def define_type_def lookup_type_def split: option.splits)

lemma faults_store_call: "faults (snd (store_call D c)) = faults D"
  by (simp add: store_call_def Let_def faults_answer)

lemma typenames_store_call:
  "\<not> is_type_def c \<Longrightarrow> typenames (snd (store_call D c)) = typenames D"
  by (cases c) (auto simp: store_call_def Let_def fresh_id_def lookup_type_def split: option.splits)

lemma type_defs_store_call:
  "type_defs (calls (snd (store_call D c))) = type_defs (calls D) + (if is_type_def c then 1 else 0)"
  by (simp add: calls_store_call type_defs_def)

lemma store_call_probe:
  assumes "store_call D (Inq_typeid g nm) = ((r, t), D')"
  shows "D' = D\<lparr>calls := calls D @ [Inq_typeid g nm]\<rparr>"
    and "r = NC_NOERR \<longleftrightarrow>
           faults D (length (calls D)) = NC_NOERR
           \<and> (\<exists>n. nm = Some n \<and> map_of (typenames D) (g, n) = Some t)"
  using assms
  by (auto simp: store_call_def Let_def lookup_type_def split: if_splits option.splits)

lemma define_type_ok:
  assumes "define_type D g nm = ((NC_NOERR, t), D')"
  shows "\<exists>n. nm = Some n \<and> typenames D' = ((g, n), t) # typenames D"
  using assms by (auto simp: define_type_def split: option.splits)

lemma store_call_def_compound:
  assumes "store_call D (Def_compound g sz nm) = ((NC_NOERR, t), D')"
  shows "\<exists>n. nm = Some n \<and> typenames D' = ((g, n), t) # typenames D"
  using assms define_type_ok [of "D\<lparr>calls := calls D @ [Def_compound g sz nm]\<rparr>" g nm t D']
  by (auto simp: store_call_def Let_def split: if_splits)

lemma store_call_def_vlen:
  assumes "store_call D (Def_vlen g nm b) = ((NC_NOERR, t), D')"
  shows "\<exists>n. nm = Some n \<and> typenames D' = ((g, n), t) # typenames D"
  using assms define_type_ok [of "D\<lparr>calls := calls D @ [Def_vlen g nm b]\<rparr>" g nm t D']
  by (auto simp: store_call_def Let_def split: if_splits)

lemma pass_facts:
  assumes "pass S (store_call (dest S) c) = (ret, S')"
  shows "nodes S' = nodes S" and "dest S' = snd (store_call (dest S) c)"
  using assms by (auto simp: pass_def split: prod.splits)

lemma pass_insert:
  assumes "pass S (store_call (dest S) c) = (r, S1)" and "\<not> is_type_def c"
  shows "nodes S1 = nodes S \<and> typenames (dest S1) = typenames (dest S)
     \<and> faults (dest S1) = faults (dest S)
     \<and> type_defs (calls (dest S1)) = type_defs (calls (dest S))"
  using pass_facts [OF assms(1)] assms(2)
  by (simp add: typenames_store_call faults_store_call type_defs_store_call)

lemma compound_fields_loop_frame:
  "compound_fields_loop S gi ci fs = Ret (ret, S') \<Longrightarrow>
     nodes S' = nodes S \<and> typenames (dest S') = typenames (dest S)
     \<and> faults (dest S') = faults (dest S)
     \<and> type_defs (calls (dest S')) = type_defs (calls (dest S))"
proof (induction fs arbitrary: S)
  case Nil
  then show ?case by simp
next
  case (Cons f fs)
  from Cons.prems show ?case
    by (auto simp: run_bind_Ret_iff Let_def split: if_splits prod.splits
             dest!: pass_insert Cons.IH)
qed

lemma buildCompound_ok:
  assumes "buildCompound B S (Some x) (Some g) nm = Ret (NC_NOERR, S1)" and "g \<noteq> x"
  shows "\<exists>n. nm = Some n \<and>
           typenames (dest S1)
             = ((meta_id (nodes S ! g), n), meta_id (nodes S1 ! x)) # typenames (dest S)"
    and "type_defs (calls (dest S1)) = type_defs (calls (dest S)) + 1"
    and "faults (dest S1) = faults (dest S)"
    and "meta_id (nodes S1 ! g) = meta_id (nodes S ! g)"
    and "length (nodes S1) = length (nodes S)"
proof -
  from assms(1) obtain h1 gn cn where
    h1: "computeOffsets (nodes S) (Some x) = Ret h1"
    and dg: "deref h1 (Some g) = Ret gn" and dx: "deref h1 (Some x) = Ret cn"
    and body: "(case commit (S\<lparr>nodes := h1\<rparr>) (the (Some x))
                  (store_call (dest S) (Def_compound (meta_id gn) (meta_offset cn) nm)) of
             (ret, S1') \<Rightarrow>
               if ret \<noteq> NC_NOERR then Ret (ret, S1')
               else compound_fields_loop S1' (the (Some g)) (the (Some x)) (vars cn))
           = Ret (NC_NOERR, S1)"
    unfolding buildCompound_def run_bind_Ret_iff by blast
  from dg dx have g: "g < length h1" and x: "x < length h1"
    and gn: "gn = h1 ! g" and cn: "cn = h1 ! x"
    by (auto simp: deref_Ret_iff)
  obtain r t D' where
    sc: "store_call (dest S) (Def_compound (meta_id (h1 ! g)) (meta_offset (h1 ! x)) nm)
               = ((r, t), D')"
    by (metis surj_pair)
  from body have rest: "(if r \<noteq> NC_NOERR then Ret (r, S\<lparr>nodes := h1, dest := D'\<rparr>)
                else compound_fields_loop \<lparr>nodes = set_id h1 x t, dest = D'\<rparr> g x (vars (h1 ! x)))
               = Ret (NC_NOERR, S1)"
    unfolding gn cn by (auto simp: sc commit_def split: if_splits)
  have r: "r = NC_NOERR" using rest by (auto split: if_splits)
  with rest have loop:
    "compound_fields_loop \<lparr>nodes = set_id h1 x t, dest = D'\<rparr> g x (vars (h1 ! x)) = Ret (NC_NOERR, S1)"
    by simp
  note fr = compound_fields_loop_frame [OF loop]
  have e: "erase h1 = erase (nodes S)"
    using h1 unfolding computeOffsets_def by (rule computeOffsets_erase(1))
  have len: "length h1 = length (nodes S)" using e by (rule erase_length)
  have gid: "meta_id (h1 ! g) = meta_id (nodes S ! g)"
    using erase_meta_id [OF e, of g] g len by simp
  from store_call_def_compound [OF sc [unfolded r]] obtain n where
    n: "nm = Some n" "typenames D' = ((meta_id (h1 ! g), n), t) # typenames (dest S)"
    by auto
  have xid: "meta_id (nodes S1 ! x) = t" using fr x by (simp add: set_id_def)
  show "\<exists>n. nm = Some n \<and>
           typenames (dest S1)
             = ((meta_id (nodes S ! g), n), meta_id (nodes S1 ! x)) # typenames (dest S)"
    using n fr gid xid by simp
  show "type_defs (calls (dest S1)) = type_defs (calls (dest S)) + 1"
    using fr type_defs_store_call [of "dest S" "Def_compound (meta_id (h1 ! g)) (meta_offset (h1 ! x)) nm"] sc
    by simp
  show "faults (dest S1) = faults (dest S)"
    using fr faults_store_call [of "dest S" "Def_compound (meta_id (h1 ! g)) (meta_offset (h1 ! x)) nm"] sc
    by simp
  show "meta_id (nodes S1 ! g) = meta_id (nodes S ! g)"
    using fr gid assms(2) g by (simp add: set_id_def)
  show "length (nodes S1) = length (nodes S)"
    using fr len by (simp add: set_id_def)
qed

lemma getFieldFQN_tail:
  "getFieldFQN E h p t1 = Ret (Some n1) \<Longrightarrow> \<exists>n2. getFieldFQN E h p t2 = Ret (Some n2)"
  by (auto simp: getFieldFQN_def run_bind_Ret_iff simp del: collect_path.simps)

lemma probe_found:
  assumes "map_of (typenames D) (gid, nm) = Some t" and "faults D (length (calls D)) = NC_NOERR"
  shows "store_call D (Inq_typeid gid (Some nm))
           = ((NC_NOERR, t), D\<lparr>calls := calls D @ [Inq_typeid gid (Some nm)]\<rparr>)"
  using assms by (simp add: store_call_def Let_def lookup_type_def)

lemma probe_not_found:
  assumes "map_of (typenames D) (gid, nm) = None"
  shows "\<exists>r t. r \<noteq> NC_NOERR \<and> store_call D (Inq_typeid gid (Some nm))
           = ((r, t), D\<lparr>calls := calls D @ [Inq_typeid gid (Some nm)]\<rparr>)"
  using assms by (simp add: store_call_def Let_def lookup_type_def)

lemma struct_second_visit:
  assumes "resolves E h y ''_t'' nm g"
    and "map_of (typenames D) (meta_id (h ! g), nm) = Some t"
    and "faults D (length (calls D)) = NC_NOERR"
  shows "buildStructureType E B \<lparr>nodes = h, dest = D\<rparr> (Some y)
           = Ret (NC_NOERR,
                  \<lparr>nodes = set_id h y t,
                     dest = D\<lparr>calls := calls D @ [Inq_typeid (meta_id (h ! g)) (Some nm)]\<rparr>\<rparr>)"
proof -
  from assms(1) obtain gi where gf: "groupFor h (Some y) = Ret gi"
    and y: "y < length h" and g: "g < length h"
    by (auto simp: resolves_def split: run.splits)
  show ?thesis
  proof (cases "nc4_orig_name (h ! y)")
    case None
    with assms(1) gf have "gi = g" "getFieldFQN E h (Some y) ''_t'' = Ret (Some nm)"
      by (auto simp: resolves_def)
    with None gf y g show ?thesis
      by (simp add: buildStructureType_def deref_Some probe_found [OF assms(2,3)])
  next
    case (Some orig)
    with assms(1) gf have "orig = nm" "nc4_orig_group (h ! y) = Some g"
      by (auto simp: resolves_def)
    with Some gf y g show ?thesis
      by (simp add: buildStructureType_def deref_Some probe_found [OF assms(2,3)])
  qed
qed

lemma seq_second_visit:
  assumes "resolves E h y ''_t'' nm g"
    and "map_of (typenames D) (meta_id (h ! g), nm) = Some t"
    and "faults D (length (calls D)) = NC_NOERR"
  shows "buildSequenceType E B \<lparr>nodes = h, dest = D\<rparr> (Some y)
           = Ret (NC_NOERR,
                  \<lparr>nodes = set_id h y t,
                     dest = D\<lparr>calls := calls D @ [Inq_typeid (meta_id (h ! g)) (Some nm)]\<rparr>\<rparr>)"
proof -
  from assms(1) obtain gi where gf: "groupFor h (Some y) = Ret gi"
    and y: "y < length h" and g: "g < length h"
    by (auto simp: resolves_def split: run.splits)
  show ?thesis
  proof (cases "nc4_orig_name (h ! y)")
    case None
    with assms(1) gf have a: "gi = g" "getFieldFQN E h (Some y) ''_t'' = Ret (Some nm)"
      by (auto simp: resolves_def)
    from getFieldFQN_tail [OF a(2)] obtain n2
      where "getFieldFQN E h (Some y) ''_cmpd_t'' = Ret (Some n2)" by blast
    with a None gf y g show ?thesis
      by (simp add: buildSequenceType_def deref_Some probe_found [OF assms(2,3)])
  next
    case (Some orig)
    with assms(1) gf have "orig = nm" "nc4_orig_group (h ! y) = Some g"
      by (auto simp: resolves_def)
    with Some gf y g show ?thesis
      by (simp add: buildSequenceType_def deref_Some probe_found [OF assms(2,3)])
  qed
qed

lemma set_cmpdid_meta_id: "meta_id (set_cmpdid h i v ! j) = meta_id (h ! j)"
  by (cases "i < length h"; cases "i = j") (simp_all add: set_cmpdid_def list_update_beyond)

lemma set_id_other: "i \<noteq> j \<Longrightarrow> meta_id (set_id h i v ! j) = meta_id (h ! j)"
  by (simp add: set_id_def)

lemma set_id_same: "i < length h \<Longrightarrow> meta_id (set_id h i v ! i) = v"
  by (simp add: set_id_def)

lemma struct_unfold:
  assumes "resolves E (nodes S) x ''_t'' nm g"
  shows "buildStructureType E B S (Some x)
     = (case store_call (dest S) (Inq_typeid (meta_id (nodes S ! g)) (Some nm)) of
          ((r, tid), D) \<Rightarrow>
            if r = NC_NOERR then Ret (NC_NOERR, \<lparr>nodes = set_id (nodes S) x tid, dest = D\<rparr>)
            else buildCompound B (S\<lparr>dest := D\<rparr>) (Some x) (Some g) (Some nm))"
proof -
  from assms obtain gi where gf: "groupFor (nodes S) (Some x) = Ret gi"
    and x: "x < length (nodes S)" and g: "g < length (nodes S)"
    by (auto simp: resolves_def split: run.splits)
  show ?thesis
  proof (cases "nc4_orig_name (nodes S ! x)")
    case None
    with assms gf have "gi = g" "getFieldFQN E (nodes S) (Some x) ''_t'' = Ret (Some nm)"
      by (auto simp: resolves_def)
    with None gf x g show ?thesis
      by (simp add: buildStructureType_def deref_Some split: prod.splits)
  next
    case (Some orig)
    with assms gf have "orig = nm" "nc4_orig_group (nodes S ! x) = Some g"
      by (auto simp: resolves_def)
    with Some gf x g show ?thesis
      by (simp add: buildStructureType_def deref_Some split: prod.splits)
  qed
qed

lemma struct_first_visit:
  assumes b: "buildStructureType E B S (Some x) = Ret (NC_NOERR, S1)"
    and r: "resolves E (nodes S) x ''_t'' nm g" and gx: "g \<noteq> x"
    and nf: "map_of (typenames (dest S)) (meta_id (nodes S ! g), nm) = None"
  shows "map_of (typenames (dest S1)) (meta_id (nodes S ! g), nm) = Some (meta_id (nodes S1 ! x))
     \<and> type_defs (calls (dest S1)) = type_defs (calls (dest S)) + 1
     \<and> faults (dest S1) = faults (dest S)
     \<and> meta_id (nodes S1 ! g) = meta_id (nodes S ! g)"
proof -
  let ?c = "Inq_typeid (meta_id (nodes S ! g)) (Some nm)"
  let ?D = "(dest S)\<lparr>calls := calls (dest S) @ [?c]\<rparr>"
  from probe_not_found [OF nf] obtain r0 t0 where
    p: "r0 \<noteq> NC_NOERR" "store_call (dest S) ?c = ((r0, t0), ?D)" by blast
  have key: "buildCompound B (S\<lparr>dest := ?D\<rparr>) (Some x) (Some g) (Some nm) = Ret (NC_NOERR, S1)"
    using b p by (simp add: struct_unfold [OF r])
  note k = buildCompound_ok [OF key gx]
  from k(1) have "typenames (dest S1)
      = ((meta_id (nodes S ! g), nm), meta_id (nodes S1 ! x)) # typenames (dest S)" by simp
  moreover from k(2) have "type_defs (calls (dest S1)) = type_defs (calls (dest S)) + 1"
    by (simp add: type_defs_def)
  moreover from k(3) have "faults (dest S1) = faults (dest S)" by simp
  moreover from k(4) have "meta_id (nodes S1 ! g) = meta_id (nodes S ! g)" by simp
  ultimately show ?thesis by simp
qed

lemma seq_unfold:
  assumes "resolves E (nodes S) x ''_t'' nm g"
  shows "\<exists>cn. buildSequenceType E B S (Some x)
     = (case store_call (dest S) (Inq_typeid (meta_id (nodes S ! g)) (Some nm)) of
          ((r, tid), D) \<Rightarrow>
            if r = NC_NOERR then Ret (NC_NOERR, \<lparr>nodes = set_id (nodes S) x tid, dest = D\<rparr>)
            else buildSequenceType_define B (S\<lparr>dest := D\<rparr>) (Some x) (Some g) (Some nm) cn)"
proof -
  from assms obtain gi where gf: "groupFor (nodes S) (Some x) = Ret gi"
    and x: "x < length (nodes S)" and g: "g < length (nodes S)"
    by (auto simp: resolves_def split: run.splits)
  show ?thesis
  proof (cases "nc4_orig_name (nodes S ! x)")
    case None
    with assms gf have a: "gi = g" "getFieldFQN E (nodes S) (Some x) ''_t'' = Ret (Some nm)"
      by (auto simp: resolves_def)
    from getFieldFQN_tail [OF a(2)] obtain n2
      where "getFieldFQN E (nodes S) (Some x) ''_cmpd_t'' = Ret (Some n2)" by blast
    with a None gf x g show ?thesis
      by (intro exI [of _ "Some n2"])
         (simp add: buildSequenceType_def deref_Some split: prod.splits)
  next
    case (Some orig)
    with assms gf have "orig = nm" "nc4_orig_group (nodes S ! x) = Some g"
      by (auto simp: resolves_def)
    with Some gf x g show ?thesis
      by (intro exI [of _ None])
         (simp add: buildSequenceType_def deref_Some split: prod.splits)
  qed
qed

lemma seq_define_ok:
  assumes d: "buildSequenceType_define B S (Some x) (Some g) (Some nm) cn = Ret (NC_NOERR, S1)"
    and gx: "g \<noteq> x"
  shows "map_of (typenames (dest S1)) (meta_id (nodes S ! g), nm) = Some (meta_id (nodes S1 ! x))
     \<and> type_defs (calls (dest S1)) = type_defs (calls (dest S)) + 2
     \<and> faults (dest S1) = faults (dest S)
     \<and> meta_id (nodes S1 ! g) = meta_id (nodes S ! g)"
proof -
  from d obtain sq ucar r3 where
    sq: "deref (nodes S) (Some x) = Ret sq"
    and fa: "NCD4_findAttr (nodes S) sq UCARTAGVLEN = Ret ucar"
    and step: "(if ucar \<noteq> None \<and> length (vars sq) = 1 then
              run_bind (deref (nodes S) None) (\<lambda>f1.
                run_bind (deref (nodes S) (basetype f1)) (\<lambda>bt.
                  Ret (NC_NOERR, meta_id bt, S)))
            else
              run_bind (buildCompound B S (Some x) (Some g) cn)
                (\<lambda>(ret, S1).
                   if ret \<noteq> NC_NOERR then Ret (ret, NC_NAT, S1)
                   else
                     let cid = meta_id (nodes S1 ! the (Some x)) in
                     Ret (NC_NOERR, cid,
                          S1\<lparr>nodes := set_cmpdid (nodes S1) (the (Some x)) cid\<rparr>))) = Ret r3"
    and fin: "(case r3 of (ret, tid, S2) \<Rightarrow>
              if ret \<noteq> NC_NOERR then Ret (ret, S2)
              else
                run_bind (deref (nodes S2) (Some g)) (\<lambda>g2.
                  Ret (commit S2 (the (Some x))
                         (store_call (dest S2)
                            (Def_vlen (meta_id g2) (Some nm) tid))))) = Ret (NC_NOERR, S1)"
    unfolding buildSequenceType_define_def Let_def run_bind_Ret_iff by blast
  obtain ret tid S2 where r3: "r3 = (ret, tid, S2)" by (cases r3) auto
  from fin r3 have ret: "ret = NC_NOERR" by (auto split: if_splits)
  from step have nv: "\<not> (ucar \<noteq> None \<and> length (vars sq) = 1)"
    by (auto simp: deref_def split: if_splits)
  with step r3 ret obtain Sc where
    bc: "buildCompound B S (Some x) (Some g) cn = Ret (NC_NOERR, Sc)"
    and S2: "S2 = Sc\<lparr>nodes := set_cmpdid (nodes Sc) x (meta_id (nodes Sc ! x))\<rparr>"
    and tid: "tid = meta_id (nodes Sc ! x)"
    by (auto simp: run_bind_Ret_iff Let_def split: if_splits prod.splits)
  note k = buildCompound_ok [OF bc gx]
  from fin r3 ret have g2: "g < length (nodes S2)"
    and cm: "commit S2 x (store_call (dest S2) (Def_vlen (meta_id (nodes S2 ! g)) (Some nm) tid))
               = (NC_NOERR, S1)"
    by (auto simp: run_bind_Ret_iff deref_Ret_iff)
  obtain rv t Dv where
    sc: "store_call (dest S2) (Def_vlen (meta_id (nodes S2 ! g)) (Some nm) tid) = ((rv, t), Dv)"
    by (metis surj_pair)
  from cm sc have rv: "rv = NC_NOERR" and S1: "S1 = \<lparr>nodes = set_id (nodes S2) x t, dest = Dv\<rparr>"
    by (auto simp: commit_def split: if_splits)
  have x: "x < length (nodes S2)"
    using sq k(5) S2 by (auto simp: deref_Ret_iff set_cmpdid_def)
  have gid: "meta_id (nodes S2 ! g) = meta_id (nodes S ! g)"
    using k(4) S2 by (simp add: set_cmpdid_meta_id)
  from store_call_def_vlen [OF sc [unfolded rv]]
  have tn: "typenames Dv = ((meta_id (nodes S ! g), nm), t) # typenames (dest S2)"
    using gid by simp
  have "map_of (typenames (dest S1)) (meta_id (nodes S ! g), nm) = Some (meta_id (nodes S1 ! x))"
    using tn S1 x by (simp add: set_id_same)
  moreover have "type_defs (calls (dest S1)) = type_defs (calls (dest S)) + 2"
    using type_defs_store_call [of "dest S2" "Def_vlen (meta_id (nodes S2 ! g)) (Some nm) tid"]
      sc S1 S2 k(2) by simp
  moreover have "faults (dest S1) = faults (dest S)"
    using faults_store_call [of "dest S2" "Def_vlen (meta_id (nodes S2 ! g)) (Some nm) tid"]
      sc S1 S2 k(3) by simp
  moreover have "meta_id (nodes S1 ! g) = meta_id (nodes S ! g)"
    using S1 gid gx by (simp add: set_id_other)
  ultimately show ?thesis by simp
qed

lemma seq_first_visit:
  assumes b: "buildSequenceType E B S (Some x) = Ret (NC_NOERR, S1)"
    and r: "resolves E (nodes S) x ''_t'' nm g" and gx: "g \<noteq> x"
    and nf: "map_of (typenames (dest S)) (meta_id (nodes S ! g), nm) = None"
  shows "map_of (typenames (dest S1)) (meta_id (nodes S ! g), nm) = Some (meta_id (nodes S1 ! x))
     \<and> type_defs (calls (dest S1)) = type_defs (calls (dest S)) + 2
     \<and> faults (dest S1) = faults (dest S)
     \<and> meta_id (nodes S1 ! g) = meta_id (nodes S ! g)"
proof -
  let ?c = "Inq_typeid (meta_id (nodes S ! g)) (Some nm)"
  let ?D = "(dest S)\<lparr>calls := calls (dest S) @ [?c]\<rparr>"
  from probe_not_found [OF nf] obtain r0 t0 where
    p: "r0 \<noteq> NC_NOERR" "store_call (dest S) ?c = ((r0, t0), ?D)" by blast
  from seq_unfold [OF r, of B] obtain cn where
    "buildSequenceType E B S (Some x)
     = (case store_call (dest S) ?c of
          ((r, tid), D) \<Rightarrow>
            if r = NC_NOERR then Ret (NC_NOERR, \<lparr>nodes = set_id (nodes S) x tid, dest = D\<rparr>)
            else buildSequenceType_define B (S\<lparr>dest := D\<rparr>) (Some x) (Some g) (Some nm) cn)"
    by blast
  with b p have key:
    "buildSequenceType_define B (S\<lparr>dest := ?D\<rparr>) (Some x) (Some g) (Some nm) cn = Ret (NC_NOERR, S1)"
    by simp
  from seq_define_ok [OF key gx] show ?thesis
    by (simp add: type_defs_def)
qed

text \<open>
  C8, as the spec states it: the first visit of a composite type issues exactly one type
  definition. For a sequence type (without the marker) the first visit issues two: the
  inner compound type and the variable-length type over it.
\<close>

theorem C8_sequence_two_definitions:
  "run_calls (build_node sample_env sample_meta \<lparr>nodes = plain_seq_heap, dest = empty_store\<rparr> 2)
     = [Inq_typeid 7 (Some ''q_t''), Def_compound 7 4 (Some ''q_cmpd_t''),
        Insert_compound 7 100 ''v'' 0 NC_INT, Def_vlen 7 (Some ''q_t'') 100]
   \<and> type_defs (run_calls (build_node sample_env sample_meta
                              \<lparr>nodes = plain_seq_heap, dest = empty_store\<rparr> 2)) = 2"
  by (simp add: plain_seq_heap_def sample_meta_def evals type_defs_def)

text \<open>
  C8, amended: let a structure or sequence type that resolves to a name and a group under
  which no type is defined yet be built with success, and let a structure or sequence type
  that resolves to the same name and group be built afterwards. The first visit issues
  exactly one type definition for a structure (its compound type) and exactly two for a
  sequence (the inner compound type and the variable-length type). The second visit issues
  the probe and nothing else, the probe finds the type (when the store answers it), and the
  node adopts the id of the existing type.
\<close>

theorem C8_first_defines_second_adopts:
  assumes "nsort (nodes S ! x) = NCD4_TYPE"
    and "subsort (nodes S ! x) = NC_STRUCT \<or> subsort (nodes S ! x) = NC_SEQ"
    and "resolves E (nodes S) x ''_t'' nm g" and "g \<noteq> x"
    and "map_of (typenames (dest S)) (meta_id (nodes S ! g), nm) = None"
    and "build_node E B S x = Ret (NC_NOERR, S1)"
    and "nsort (nodes S1 ! y) = NCD4_TYPE"
    and "subsort (nodes S1 ! y) = NC_STRUCT \<or> subsort (nodes S1 ! y) = NC_SEQ"
    and "resolves E (nodes S1) y ''_t'' nm g"
    and "faults (dest S) (length (calls (dest S1))) = NC_NOERR"
  shows "type_defs (calls (dest S1))
           = type_defs (calls (dest S)) + (if subsort (nodes S ! x) = NC_STRUCT then 1 else 2)
         \<and> build_node E B S1 y
           = Ret (NC_NOERR,
                  \<lparr>nodes = set_id (nodes S1) y (meta_id (nodes S1 ! x)),
                     dest = (dest S1)\<lparr>calls := calls (dest S1)
                                        @ [Inq_typeid (meta_id (nodes S1 ! g)) (Some nm)]\<rparr>\<rparr>)"
proof -
  have x: "x < length (nodes S)" and y: "y < length (nodes S1)"
    using assms(3,9) by (auto simp: resolves_def)
  have first:
    "map_of (typenames (dest S1)) (meta_id (nodes S ! g), nm) = Some (meta_id (nodes S1 ! x))
     \<and> type_defs (calls (dest S1))
         = type_defs (calls (dest S)) + (if subsort (nodes S ! x) = NC_STRUCT then 1 else 2)
     \<and> faults (dest S1) = faults (dest S)
     \<and> meta_id (nodes S1 ! g) = meta_id (nodes S ! g)"
  proof (cases "subsort (nodes S ! x) = NC_STRUCT")
    case True
    with assms(1,6) x have "buildStructureType E B S (Some x) = Ret (NC_NOERR, S1)"
      by (simp add: build_node_def deref_Some)
    from struct_first_visit [OF this assms(3,4,5)] True show ?thesis by simp
  next
    case False
    with assms(2) have sq: "subsort (nodes S ! x) = NC_SEQ" by simp
    with assms(1,6) x have "buildSequenceType E B S (Some x) = Ret (NC_NOERR, S1)"
      by (simp add: build_node_def deref_Some)
    from seq_first_visit [OF this assms(3,4,5)] sq show ?thesis by simp
  qed
  then have m: "map_of (typenames (dest S1)) (meta_id (nodes S1 ! g), nm)
                  = Some (meta_id (nodes S1 ! x))"
    and f: "faults (dest S1) (length (calls (dest S1))) = NC_NOERR"
    using assms(10) by simp_all
  have S1: "\<lparr>nodes = nodes S1, dest = dest S1\<rparr> = S1" by simp
  have "build_node E B S1 y
           = Ret (NC_NOERR,
                  \<lparr>nodes = set_id (nodes S1) y (meta_id (nodes S1 ! x)),
                     dest = (dest S1)\<lparr>calls := calls (dest S1)
                                        @ [Inq_typeid (meta_id (nodes S1 ! g)) (Some nm)]\<rparr>\<rparr>)"
  proof (cases "subsort (nodes S1 ! y) = NC_STRUCT")
    case True
    with assms(7) y show ?thesis
      using struct_second_visit [OF assms(9) m f, of B] by (simp add: build_node_def deref_Some S1)
  next
    case False
    with assms(8) have "subsort (nodes S1 ! y) = NC_SEQ" by simp
    with assms(7) y show ?thesis
      using seq_second_visit [OF assms(9) m f, of B] by (simp add: build_node_def deref_Some S1)
  qed
  with first show ?thesis by simp
qed

theorem C8_first_defines_second_adopts_witness:
  "build_node sample_env sample_meta \<lparr>nodes = struct_heap, dest = empty_store\<rparr> 2
     = Ret (NC_NOERR, struct_built)
   \<and> type_defs (calls (dest struct_built)) = 1
   \<and> build_node sample_env sample_meta struct_built 2
     = Ret (NC_NOERR,
            struct_built\<lparr>dest := (dest struct_built)
               \<lparr>calls := calls (dest struct_built) @ [Inq_typeid 7 (Some ''s_t'')]\<rparr>\<rparr>)"
proof -
  let ?S = "\<lparr>nodes = struct_heap, dest = empty_store\<rparr>"
  have b: "build_node sample_env sample_meta ?S 2 = Ret (NC_NOERR, struct_built)"
    by (simp add: struct_heap_def struct_built_def sample_meta_def evals)
  have pre: "nsort (nodes ?S ! 2) = NCD4_TYPE"
    "subsort (nodes ?S ! 2) = NC_STRUCT \<or> subsort (nodes ?S ! 2) = NC_SEQ"
    "resolves sample_env (nodes ?S) 2 ''_t'' ''s_t'' 0" "(0::nat) \<noteq> 2"
    "map_of (typenames (dest ?S)) (meta_id (nodes ?S ! 0), ''s_t'') = None"
    by (simp_all add: struct_heap_def resolves_def evals)
  have post: "nsort (nodes struct_built ! 2) = NCD4_TYPE"
    "subsort (nodes struct_built ! 2) = NC_STRUCT \<or> subsort (nodes struct_built ! 2) = NC_SEQ"
    "resolves sample_env (nodes struct_built) 2 ''_t'' ''s_t'' 0"
    "faults (dest ?S) (length (calls (dest struct_built))) = NC_NOERR"
    by (simp_all add: struct_built_def resolves_def evals)
  note r = C8_first_defines_second_adopts [OF pre b post]
  have k: "subsort (nodes ?S ! 2) = NC_STRUCT" "type_defs (calls (dest ?S)) = 0"
    by (simp_all add: struct_heap_def blank_def empty_store_def type_defs_def)
  have eq: "\<lparr>nodes = set_id (nodes struct_built) 2 (meta_id (nodes struct_built ! 2)),
              dest = (dest struct_built)\<lparr>calls := calls (dest struct_built)
                        @ [Inq_typeid (meta_id (nodes struct_built ! 0)) (Some ''s_t'')]\<rparr>\<rparr>
            = struct_built\<lparr>dest := (dest struct_built)
                 \<lparr>calls := calls (dest struct_built) @ [Inq_typeid 7 (Some ''s_t'')]\<rparr>\<rparr>"
    by (simp add: struct_built_def blank_def set_id_def)
  from r [THEN conjunct1] k have "type_defs (calls (dest struct_built)) = 1" by simp
  moreover from r [THEN conjunct2] eq
  have "build_node sample_env sample_meta struct_built 2
     = Ret (NC_NOERR,
            struct_built\<lparr>dest := (dest struct_built)
               \<lparr>calls := calls (dest struct_built) @ [Inq_typeid 7 (Some ''s_t'')]\<rparr>\<rparr>)"
    by simp
  ultimately show ?thesis using b by simp
qed

subsection \<open>Offsets of structure fields\<close>

text \<open>
  Offsets: \<^const>\<open>computeOffsets\<close> writes the expected layout.
\<close>

lemma erase_sel:
  assumes "erase h = erase h0" and "i < length h0"
  shows "vars (h ! i) = vars (h0 ! i)" and "subsort (h ! i) = subsort (h0 ! i)"
    and "basetype (h ! i) = basetype (h0 ! i)" and "nsort (h ! i) = nsort (h0 ! i)"
    and "opaque_size (h ! i) = opaque_size (h0 ! i)" and "meta_id (h ! i) = meta_id (h0 ! i)"
  using arg_cong [OF erase_nth [OF assms], of vars]
    arg_cong [OF erase_nth [OF assms], of subsort]
    arg_cong [OF erase_nth [OF assms], of basetype]
    arg_cong [OF erase_nth [OF assms], of nsort]
    arg_cong [OF erase_nth [OF assms], of opaque_size]
    arg_cong [OF erase_nth [OF assms], of meta_id]
  by simp_all

lemma plain_type_size:
  "plain_type k h0 t \<Longrightarrow> erase h = erase h0 \<Longrightarrow>
     \<exists>w. computeTypeSize_fuel k h t = Ret w \<and> computeTypeSize_fuel k h0 t = Ret w"
proof (induction k arbitrary: t)
  case 0
  then show ?case by simp
next
  case (Suc k)
  from Suc.prems(1) obtain i where t: "t = Some i" and i: "i < length h0"
    by (auto split: option.splits)
  note s = erase_sel [OF Suc.prems(2) i]
  have len: "length h = length h0" using Suc.prems(2) by (rule erase_length)
  show ?case
  proof (cases "nsort (h0 ! i) = NCD4_TYPE \<and> subsort (h0 ! i) = NC_ENUM")
    case True
    with Suc.prems(1) t i have "plain_type k h0 (basetype (h0 ! i))" by simp
    from Suc.IH [OF this Suc.prems(2)] True t i len s show ?thesis
      by (simp add: deref_Some)
  next
    case False
    with Suc.prems(1) t i len s show ?thesis
      by (auto simp: deref_Some)
  qed
qed

lemma computeTypeSize_plain:
  assumes "plain_type (Suc (length h0)) h0 t" and "erase h = erase h0"
  shows "computeTypeSize h t = Ret (case computeTypeSize h0 t of
                                     Ret w \<Rightarrow> w | _ \<Rightarrow> 0)"
  using plain_type_size [OF assms] erase_length [OF assms(2)]
  by (auto simp: computeTypeSize_def)

lemma computeTypeSize_struct:
  assumes "t < length h" and "nsort (h ! t) = NCD4_TYPE" and "subsort (h ! t) = NC_STRUCT"
  shows "computeTypeSize h (Some t) = Ret (meta_offset (h ! t))"
  using assms by (simp add: computeTypeSize_def deref_Some)

lemma set_offset_nth:
  "i < length h \<Longrightarrow> meta_offset (set_offset h i v ! i) = v"
  "j \<noteq> i \<Longrightarrow> set_offset h i v ! j = h ! j"
  by (simp_all add: set_offset_def)

lemma layout_last:
  assumes "wf_cmpd k h c" shows "(c, total_size k h c) \<in> set (layout k h c)"
proof (cases k)
  case 0
  with assms show ?thesis by simp
next
  case (Suc k')
  then show ?thesis by simp
qed

lemma layout_fields_nth:
  "j < length fs \<Longrightarrow>
     (fs ! j, off + sum_list (map (width k h) (take j fs))) \<in> set (layout_fields k h fs off)"
proof (induction fs arbitrary: j off)
  case Nil
  then show ?case by simp
next
  case (Cons f fs)
  show ?case
  proof (cases j)
    case 0
    show ?thesis unfolding 0 by simp
  next
    case (Suc j')
    with Cons.prems have j': "j' < length fs" by simp
    have e: "off + width k h f + sum_list (map (width k h) (take j' fs))
             = off + sum_list (map (width k h) (take j (f # fs)))"
      unfolding Suc by (simp add: add.assoc)
    have "(fs ! j', off + width k h f + sum_list (map (width k h) (take j' fs)))
            \<in> set (layout_fields k h fs (off + width k h f))"
      using Cons.IH [OF j'] .
    then show ?thesis
      unfolding e unfolding Suc by simp
  qed
qed

lemma wf_cmpd_bound: "wf_cmpd k h c \<Longrightarrow> c < length h"
  by (cases k) auto

lemma offsets_correct:
  "\<forall>h0 c. cmpd = Some c \<longrightarrow> erase h = erase h0 \<longrightarrow> wf_cmpd k h0 c
      \<longrightarrow> distinct (map fst (layout k h0 c)) \<longrightarrow>
      (\<exists>h'. computeOffsets_fuel k h cmpd = Ret h' \<and> erase h' = erase h0
         \<and> same_outside (layout k h0 c) h h' \<and> laid_out h' (layout k h0 c))"
  "\<forall>h0. erase h = erase h0 \<longrightarrow> wf_fields k h0 fs
      \<longrightarrow> distinct (map fst (layout_fields k h0 fs off)) \<longrightarrow>
      (\<exists>h'. offsets_loop k h fs off = Ret (h', off + sum_list (map (width k h0) fs))
         \<and> erase h' = erase h0
         \<and> same_outside (layout_fields k h0 fs off) h h'
         \<and> laid_out h' (layout_fields k h0 fs off))"
proof (induction k h cmpd and k h fs off rule: computeOffsets_fuel_offsets_loop.induct)
  case (1 h cmpd)
  then show ?case by simp
next
  case (2 k h cmpd)
  show ?case
  proof (intro allI impI)
    fix h0 c
    assume cm: "cmpd = Some c" and e: "erase h = erase h0"
      and wf: "wf_cmpd (Suc k) h0 c" and d: "distinct (map fst (layout (Suc k) h0 c))"
    let ?fs = "vars (h0 ! c)"
    let ?L = "layout_fields k h0 ?fs 0"
    let ?tot = "sum_list (map (width k h0) ?fs)"
    from wf have c: "c < length h0" and wff: "wf_fields k h0 ?fs" by simp_all
    have len: "length h = length h0" using e by (rule erase_length)
    have v: "vars (h ! c) = ?fs" using erase_sel(1) [OF e c] .
    from d have dL: "distinct (map fst ?L)" and cL: "c \<notin> fst ` set ?L" by auto
    from "2.IH" [of "h ! c"] e wff dL v obtain h1 where
      loop: "offsets_loop k h ?fs 0 = Ret (h1, 0 + ?tot)" and e1: "erase h1 = erase h0"
      and so: "same_outside ?L h h1" and lo: "laid_out h1 ?L"
      by auto
    have len1: "length h1 = length h0" using e1 by (rule erase_length)
    let ?h' = "set_offset h1 c ?tot"
    have r: "computeOffsets_fuel (Suc k) h cmpd = Ret ?h'"
      using cm c len v loop by (simp add: deref_Some)
    have e': "erase ?h' = erase h0" using e1 by (simp add: erase_set_offset)
    have so': "same_outside (layout (Suc k) h0 c) h ?h'"
      using so by (auto simp: same_outside_def set_offset_nth)
    have hc: "meta_offset (?h' ! c) = ?tot" using c len1 by (simp add: set_offset_nth)
    have hn: "\<And>n v. (n, v) \<in> set ?L \<Longrightarrow> meta_offset (?h' ! n) = v"
    proof -
      fix n v assume nv: "(n, v) \<in> set ?L"
      then have "n \<in> fst ` set ?L" by force
      with cL have "n \<noteq> c" by auto
      then have "?h' ! n = h1 ! n" by (simp add: set_offset_nth)
      with lo nv show "meta_offset (?h' ! n) = v" by (auto simp: laid_out_def)
    qed
    have lo': "laid_out ?h' (layout (Suc k) h0 c)"
      using hc hn by (auto simp: laid_out_def)
    from r e' so' lo'
    show "\<exists>h'. computeOffsets_fuel (Suc k) h cmpd = Ret h' \<and> erase h' = erase h0
         \<and> same_outside (layout (Suc k) h0 c) h h' \<and> laid_out h' (layout (Suc k) h0 c)"
      by blast
  qed
next
  case (3 k h offset)
  show ?case by (simp add: same_outside_def laid_out_def)
next
  case (4 k h f fs offset)
  show ?case
  proof (intro allI impI)
    fix h0
    assume e: "erase h = erase h0" and wf: "wf_fields k h0 (f # fs)"
      and d: "distinct (map fst (layout_fields k h0 (f # fs) offset))"
    let ?w = "width k h0 f"
    let ?N = "layout_nested k h0 f"
    let ?F = "layout_fields k h0 fs (offset + ?w)"
    from wf have f: "f < length h0" and wfs: "wf_fields k h0 fs" by simp_all
    have len: "length h = length h0" using e by (rule erase_length)
    note s = erase_sel [OF e f]
    from d have dF: "distinct (map fst ?F)" and fF: "f \<notin> fst ` set ?F"
      and fN: "f \<notin> fst ` set ?N" and NF: "fst ` set ?N \<inter> fst ` set ?F = {}"
      by auto
    have A: "\<exists>h1. (if subsort (h ! f) = NC_STRUCT then
              run_bind (computeOffsets_fuel k h (basetype (h ! f))) (\<lambda>h1.
                run_bind (computeTypeSize h1 (basetype (h ! f))) (\<lambda>size. Ret (h1, size)))
            else if subsort (h ! f) = NC_SEQ then Ret (h, of_nat sizeof_nc_vlen_t)
            else run_bind (computeTypeSize h (basetype (h ! f))) (\<lambda>size. Ret (h, size)))
           = Ret (h1, ?w)
         \<and> erase h1 = erase h0 \<and> same_outside ?N h h1 \<and> laid_out h1 ?N"
    proof (cases "subsort (h0 ! f) = NC_STRUCT")
      case True
      with wf obtain t where bt: "basetype (h0 ! f) = Some t" and wt: "wf_cmpd k h0 t"
        and tt: "nsort (h0 ! t) = NCD4_TYPE" "subsort (h0 ! t) = NC_STRUCT"
        by (auto split: option.splits)
      have N: "?N = layout k h0 t" using True bt by (simp add: layout_nested.simps)
      have w: "?w = total_size k h0 t" using True bt by (simp add: width.simps)
      from d N have dN: "distinct (map fst (layout k h0 t))" by simp
      from "4.IH"(1) [of "h ! f"] True s bt e wt dN obtain h1 where
        c1: "computeOffsets_fuel k h (basetype (h ! f)) = Ret h1" and e1: "erase h1 = erase h0"
        and so: "same_outside (layout k h0 t) h h1" and lo: "laid_out h1 (layout k h0 t)"
        by auto
      have t: "t < length h0" using wt by (rule wf_cmpd_bound)
      have len1: "length h1 = length h0" using e1 by (rule erase_length)
      note s1 = erase_sel [OF e1 t]
      have "computeTypeSize h1 (Some t) = Ret (meta_offset (h1 ! t))"
        using t len1 s1 tt by (intro computeTypeSize_struct) simp_all
      moreover have "meta_offset (h1 ! t) = total_size k h0 t"
        using lo layout_last [OF wt] by (auto simp: laid_out_def)
      ultimately show ?thesis
        using True s bt c1 e1 so lo N w by auto
    next
      case False
      then have N: "?N = []" by (simp add: layout_nested.simps)
      show ?thesis
      proof (cases "subsort (h0 ! f) = NC_SEQ")
        case True
        with False s e N show ?thesis
          by (auto simp: width.simps same_outside_def laid_out_def)
      next
        case nseq: False
        with False wf have p: "plain_type (Suc (length h0)) h0 (basetype (h0 ! f))" by simp
        from computeTypeSize_plain [OF p e] False nseq s e N show ?thesis
          by (auto simp: width.simps same_outside_def laid_out_def)
      qed
    qed
    then obtain h1 where
      a1: "(if subsort (h ! f) = NC_STRUCT then
              run_bind (computeOffsets_fuel k h (basetype (h ! f))) (\<lambda>h1.
                run_bind (computeTypeSize h1 (basetype (h ! f))) (\<lambda>size. Ret (h1, size)))
            else if subsort (h ! f) = NC_SEQ then Ret (h, of_nat sizeof_nc_vlen_t)
            else run_bind (computeTypeSize h (basetype (h ! f))) (\<lambda>size. Ret (h, size)))
           = Ret (h1, ?w)"
      and e1: "erase h1 = erase h0" and so1: "same_outside ?N h h1" and lo1: "laid_out h1 ?N"
      by blast
    have len1: "length h1 = length h0" using e1 by (rule erase_length)
    let ?h2 = "set_offset h1 f offset"
    have e2: "erase ?h2 = erase h0" using e1 by (simp add: erase_set_offset)
    from "4.IH"(2) [of h1 ?w] e2 wfs dF obtain h' where
      loop: "offsets_loop k ?h2 fs (offset + ?w)
               = Ret (h', offset + ?w + sum_list (map (width k h0) fs))"
      and e': "erase h' = erase h0" and so': "same_outside ?F ?h2 h'" and lo': "laid_out h' ?F"
      by blast
    have r: "offsets_loop k h (f # fs) offset
               = Ret (h', offset + sum_list (map (width k h0) (f # fs)))"
      using f len a1 loop by (simp add: deref_Some add.assoc)
    have so: "same_outside (layout_fields k h0 (f # fs) offset) h h'"
      unfolding same_outside_def
    proof (intro allI impI)
      fix i assume "i \<notin> fst ` set (layout_fields k h0 (f # fs) offset)"
      then have i: "i \<notin> fst ` set ?N" "i \<noteq> f" "i \<notin> fst ` set ?F" by auto
      from so' i have "h' ! i = h1 ! i" by (simp add: same_outside_def set_offset_nth)
      also from so1 i have "h1 ! i = h ! i" by (simp add: same_outside_def)
      finally show "h' ! i = h ! i" .
    qed
    have hf: "meta_offset (h' ! f) = offset"
      using so' fF f len1 by (simp add: same_outside_def set_offset_nth)
    have hn: "\<And>n v. (n, v) \<in> set ?N \<Longrightarrow> meta_offset (h' ! n) = v"
    proof -
      fix n v assume nv: "(n, v) \<in> set ?N"
      then have "n \<in> fst ` set ?N" by force
      with NF fN have "n \<notin> fst ` set ?F" "n \<noteq> f" by auto
      with so' have "h' ! n = h1 ! n" by (simp add: same_outside_def set_offset_nth)
      with lo1 nv show "meta_offset (h' ! n) = v" by (auto simp: laid_out_def)
    qed
    have lo: "laid_out h' (layout_fields k h0 (f # fs) offset)"
      using hf hn lo' by (auto simp: laid_out_def)
    from r e' so lo
    show "\<exists>h'. offsets_loop k h (f # fs) offset
                 = Ret (h', offset + sum_list (map (width k h0) (f # fs)))
         \<and> erase h' = erase h0
         \<and> same_outside (layout_fields k h0 (f # fs) offset) h h'
         \<and> laid_out h' (layout_fields k h0 (f # fs) offset)"
      by blast
  qed
qed

lemma layout_nested_sub:
  "f \<in> set fs \<Longrightarrow> set (layout_nested k h f) \<subseteq> set (layout_fields k h fs off)"
  by (induction fs arbitrary: off) auto

lemma wf_fields_struct:
  "wf_fields k h fs \<Longrightarrow> f \<in> set fs \<Longrightarrow> subsort (h ! f) = NC_STRUCT
     \<Longrightarrow> basetype (h ! f) = Some t \<Longrightarrow> wf_cmpd k h t"
  by (induction fs) (auto split: if_splits)

lemma total_size_unfold:
  "wf_cmpd k h t \<Longrightarrow> total_size k h t = sum_list (map (width (k - 1) h) (vars (h ! t)))"
  by (cases k) auto

text \<open>
  C2. For a well-formed structure type whose nodes are each laid out once,
  \<^verbatim>\<open>computeOffsets\<close> returns; in the node table it returns, field \<open>j\<close> of the type is at
  the sum of the declared widths of the fields before it (the first at 0, with no
  padding) and the type carries the sum of the widths of all its fields, both in 64-bit
  unsigned arithmetic. A sequence field counts for the size of a variable-length handle
  whatever its element type, and a structure field counts for the total size computed for
  its own type, which is the sum of the widths of that type's fields.
\<close>

theorem C2_offsets:
  assumes wf: "wf_cmpd (Suc (length h)) h c"
    and d: "distinct (map fst (layout (Suc (length h)) h c))"
  shows "\<exists>h'. computeOffsets h (Some c) = Ret h'
     \<and> (\<forall>j < length (vars (h ! c)).
          meta_offset (h' ! (vars (h ! c) ! j))
            = sum_list (map (width (length h) h) (take j (vars (h ! c)))))
     \<and> meta_offset (h' ! c) = sum_list (map (width (length h) h) (vars (h ! c)))
     \<and> (\<forall>f \<in> set (vars (h ! c)). subsort (h ! f) = NC_SEQ
          \<longrightarrow> width (length h) h f = of_nat sizeof_nc_vlen_t)
     \<and> (\<forall>f \<in> set (vars (h ! c)). \<forall>t. subsort (h ! f) = NC_STRUCT \<and> basetype (h ! f) = Some t
          \<longrightarrow> width (length h) h f = meta_offset (h' ! t)
            \<and> meta_offset (h' ! t)
                = sum_list (map (width (length h - 1) h) (vars (h ! t))))"
proof -
  let ?n = "length h"
  let ?fs = "vars (h ! c)"
  from offsets_correct(1) [of "Some c" h "Suc ?n"] wf d obtain h' where
    r: "computeOffsets_fuel (Suc ?n) h (Some c) = Ret h'"
    and lo: "laid_out h' (layout (Suc ?n) h c)"
    by blast
  from wf have wff: "wf_fields ?n h ?fs" by simp
  have sub: "set (layout_fields ?n h ?fs 0) \<subseteq> set (layout (Suc ?n) h c)" by auto
  have 1: "\<forall>j < length ?fs.
      meta_offset (h' ! (?fs ! j)) = sum_list (map (width ?n h) (take j ?fs))"
  proof (intro allI impI)
    fix j assume "j < length ?fs"
    from layout_fields_nth [OF this, of 0 ?n h] sub lo
    show "meta_offset (h' ! (?fs ! j)) = sum_list (map (width ?n h) (take j ?fs))"
      by (auto simp: laid_out_def)
  qed
  have 2: "meta_offset (h' ! c) = sum_list (map (width ?n h) ?fs)"
    using lo by (simp add: laid_out_def)
  have 3: "\<forall>f \<in> set ?fs. subsort (h ! f) = NC_SEQ \<longrightarrow> width ?n h f = of_nat sizeof_nc_vlen_t"
    by (simp add: width.simps)
  have 4: "\<forall>f \<in> set ?fs. \<forall>t. subsort (h ! f) = NC_STRUCT \<and> basetype (h ! f) = Some t
          \<longrightarrow> width ?n h f = meta_offset (h' ! t)
            \<and> meta_offset (h' ! t) = sum_list (map (width (?n - 1) h) (vars (h ! t)))"
  proof (intro ballI allI impI)
    fix f t assume f: "f \<in> set ?fs"
      and st: "subsort (h ! f) = NC_STRUCT \<and> basetype (h ! f) = Some t"
    from wf_fields_struct [OF wff f] st have wt: "wf_cmpd ?n h t" by blast
    have w: "width ?n h f = total_size ?n h t" using st by (simp add: width.simps)
    have "layout_nested ?n h f = layout ?n h t" using st by (simp add: layout_nested.simps)
    with layout_nested_sub [OF f, of ?n h 0] layout_last [OF wt] sub
    have "(t, total_size ?n h t) \<in> set (layout (Suc ?n) h c)" by auto
    with lo have m: "meta_offset (h' ! t) = total_size ?n h t" by (auto simp: laid_out_def)
    from w m total_size_unfold [OF wt]
    show "width ?n h f = meta_offset (h' ! t)
            \<and> meta_offset (h' ! t) = sum_list (map (width (?n - 1) h) (vars (h ! t)))"
      by simp
  qed
  from r 1 2 3 4 show ?thesis unfolding computeOffsets_def by blast
qed

theorem C2_offsets_witness:
  "\<exists>h'. computeOffsets nested_heap (Some 0) = Ret h'
     \<and> meta_offset (h' ! 1) = 0 \<and> meta_offset (h' ! 2) = 4 \<and> meta_offset (h' ! 3) = 12
     \<and> meta_offset (h' ! 0) = 28 \<and> meta_offset (h' ! 4) = 8"
proof -
  have pre: "wf_cmpd (Suc (length nested_heap)) nested_heap 0"
    "distinct (map fst (layout (Suc (length nested_heap)) nested_heap 0))"
    by (simp_all add: nested_heap_def blank_def layout_nested.simps width.simps
        computeTypeSize_def deref_def)
  from C2_offsets [OF pre] obtain h' where
    r: "computeOffsets nested_heap (Some 0) = Ret h'"
    and o: "\<forall>j < length (vars (nested_heap ! 0)).
          meta_offset (h' ! (vars (nested_heap ! 0) ! j))
            = sum_list (map (width (length nested_heap) nested_heap)
                (take j (vars (nested_heap ! 0))))"
    and s: "meta_offset (h' ! 0) = sum_list (map (width (length nested_heap) nested_heap)
                (vars (nested_heap ! 0)))"
    and n: "\<forall>f \<in> set (vars (nested_heap ! 0)). \<forall>t.
          subsort (nested_heap ! f) = NC_STRUCT \<and> basetype (nested_heap ! f) = Some t
          \<longrightarrow> width (length nested_heap) nested_heap f = meta_offset (h' ! t)
            \<and> meta_offset (h' ! t)
                = sum_list (map (width (length nested_heap - 1) nested_heap)
                    (vars (nested_heap ! t)))"
    by blast
  note ev = nested_heap_def blank_def width.simps computeTypeSize_def deref_def
    NCD4_typesize_def
  from o [rule_format, of 0] have o1: "meta_offset (h' ! 1) = 0" by (simp add: ev)
  from o [rule_format, of 1] have o2: "meta_offset (h' ! 2) = 4" by (simp add: ev)
  from o [rule_format, of 2] have o3: "meta_offset (h' ! 3) = 12"
    by (simp add: ev take_Suc_conv_app_nth)
  from s have o0: "meta_offset (h' ! 0) = 28" by (simp add: ev)
  from n [rule_format, of 2 4] have o4: "meta_offset (h' ! 4) = 8" by (simp add: ev)
  from r o1 o2 o3 o0 o4 show ?thesis by blast
qed

end
